theory Spec2Isabelle
  imports Complex_Main "HOL-Library.Option_ord"
begin

section \<open>JavaScript numbers\<close>

text \<open>
  A JavaScript number is \<open>NaN\<close>, one of the two infinities, or a finite double. A finite
  double is carried as the real number it denotes; the sign of zero is not kept. Every
  operation that computes a finite value rounds the exact result to the nearest double, ties
  to the even significand, with 53 bits of significand, subnormals below \<open>2 powi (- 1022)\<close>
  and overflow to infinity, as IEEE 754 binary64 arithmetic does.
\<close>

datatype number = NaN | PosInf | NegInf | Fin real

text \<open>The number of binary digits of a natural number.\<close>

fun bit_length :: "nat \<Rightarrow> nat" where
  "bit_length n = (if n = 0 then 0 else Suc (bit_length (n div 2)))"

declare bit_length.simps [simp del]

text \<open>For a positive real \<open>x\<close>, the exponent \<open>e\<close> with \<open>2 powi e \<le> x < 2 powi (e + 1)\<close>.\<close>

definition binary_exponent :: "real \<Rightarrow> int" where
  "binary_exponent x =
     (if 1 \<le> x then int (bit_length (nat \<lfloor>x\<rfloor>)) - 1
      else - int (bit_length (nat (\<lceil>1 / x\<rceil> - 1))))"

definition round_half_even :: "real \<Rightarrow> int" where
  "round_half_even q =
     (if q - of_int \<lfloor>q\<rfloor> < 1 / 2 then \<lfloor>q\<rfloor>
      else if 1 / 2 < q - of_int \<lfloor>q\<rfloor> then \<lfloor>q\<rfloor> + 1
      else if even \<lfloor>q\<rfloor> then \<lfloor>q\<rfloor> else \<lfloor>q\<rfloor> + 1)"

text \<open>
  The double nearest to a real number: the significand is the real divided by the unit in
  the last place of its binade, rounded to an integer.
\<close>

definition to_double :: "real \<Rightarrow> number" where
  "to_double x =
     (if x = 0 then Fin 0
      else
        (let e = max (binary_exponent \<bar>x\<bar>) (- 1022);
             n = round_half_even (\<bar>x\<bar> * 2 powi (52 - e))
         in if 1024 \<le> e \<or> (e = 1023 \<and> n = 2 ^ 53) then (if x < 0 then NegInf else PosInf)
            else Fin ((if x < 0 then - 1 else 1) * of_int n * 2 powi (e - 52))))"

text \<open>
  The three operations that the route handler applies to coordinates: \<open>a - b\<close>,
  \<open>Math.abs\<close> and \<open>a > b\<close>.
\<close>

fun js_sub :: "number \<Rightarrow> number \<Rightarrow> number" where
  "js_sub NaN _ = NaN"
| "js_sub _ NaN = NaN"
| "js_sub (Fin a) (Fin b) = to_double (a - b)"
| "js_sub PosInf PosInf = NaN"
| "js_sub NegInf NegInf = NaN"
| "js_sub PosInf _ = PosInf"
| "js_sub NegInf _ = NegInf"
| "js_sub (Fin a) PosInf = NegInf"
| "js_sub (Fin a) NegInf = PosInf"

fun Math_abs :: "number \<Rightarrow> number" where
  "Math_abs NaN = NaN"
| "Math_abs PosInf = PosInf"
| "Math_abs NegInf = PosInf"
| "Math_abs (Fin a) = Fin \<bar>a\<bar>"

fun js_gt :: "number \<Rightarrow> number \<Rightarrow> bool" where
  "js_gt NaN _ = False"
| "js_gt _ NaN = False"
| "js_gt (Fin a) (Fin b) = (a > b)"
| "js_gt PosInf PosInf = False"
| "js_gt PosInf _ = True"
| "js_gt NegInf _ = False"
| "js_gt (Fin a) PosInf = False"
| "js_gt (Fin a) NegInf = True"

subsection \<open>The built-in \<open>parseFloat\<close>\<close>

text \<open>
  \<open>parseFloat\<close> skips leading white space and reads the longest prefix that is a decimal
  literal: an optional sign, then \<open>Infinity\<close>, or digits with an optional fraction and an
  optional exponent (an exponent without digits is not read). Without such a prefix the
  result is \<open>NaN\<close>; otherwise it is the double nearest to the decimal value read.
  Strings are sequences of 8-bit characters here.
\<close>

definition is_space :: "char \<Rightarrow> bool" where
  "is_space c = (of_char c \<in> {9::nat, 10, 11, 12, 13, 32, 160})"

definition is_digit :: "char \<Rightarrow> bool" where
  "is_digit c = (48 \<le> (of_char c :: nat) \<and> (of_char c :: nat) \<le> 57)"

fun digits_value :: "nat \<Rightarrow> string \<Rightarrow> nat" where
  "digits_value acc [] = acc"
| "digits_value acc (c # cs) = digits_value (10 * acc + (of_char c - 48)) cs"

definition starts_with :: "string \<Rightarrow> string \<Rightarrow> bool" where
  "starts_with p s = (take (length p) s = p)"

definition exponent_part :: "string \<Rightarrow> int" where
  "exponent_part s =
     (case s of
        [] \<Rightarrow> 0
      | c # r \<Rightarrow>
          if c = CHR ''e'' \<or> c = CHR ''E'' then
            (case r of
               [] \<Rightarrow> 0
             | d # r' \<Rightarrow>
                 if d = CHR ''-'' then
                   (if takeWhile is_digit r' = [] then 0
                    else - int (digits_value 0 (takeWhile is_digit r')))
                 else if d = CHR ''+'' then int (digits_value 0 (takeWhile is_digit r'))
                 else int (digits_value 0 (takeWhile is_digit r)))
          else 0)"

text \<open>The exact decimal value of an unsigned literal at the head of a string.\<close>

definition unsigned_literal :: "string \<Rightarrow> real option" where
  "unsigned_literal s =
     (let ip = takeWhile is_digit s;
          r1 = dropWhile is_digit s;
          fp = (case r1 of [] \<Rightarrow> [] | c # r \<Rightarrow> if c = CHR ''.'' then takeWhile is_digit r else []);
          r2 = (case r1 of [] \<Rightarrow> [] | c # r \<Rightarrow> if c = CHR ''.'' then dropWhile is_digit r else r1)
      in if ip = [] \<and> fp = [] then None
         else Some ((real (digits_value 0 ip) + real (digits_value 0 fp) / 10 ^ length fp)
                    * 10 powi exponent_part r2))"

definition parseFloat :: "string \<Rightarrow> number" where
  "parseFloat s =
     (let t = dropWhile is_space s;
          neg = (t \<noteq> [] \<and> hd t = CHR ''-'');
          u = (if t \<noteq> [] \<and> (hd t = CHR ''-'' \<or> hd t = CHR ''+'') then tl t else t)
      in if starts_with ''Infinity'' u then (if neg then NegInf else PosInf)
         else (case unsigned_literal u of
                 None \<Rightarrow> NaN
               | Some v \<Rightarrow> to_double (if neg then - v else v)))"

text \<open>
  A property that is absent reads as \<open>undefined\<close>, and \<open>parseFloat(undefined)\<close> parses
  the string \<open>undefined\<close>.
\<close>

definition parseFloat_field :: "string option \<Rightarrow> number" where
  "parseFloat_field v = (case v of None \<Rightarrow> parseFloat ''undefined'' | Some s \<Rightarrow> parseFloat s)"

section \<open>The route handler \<open>app/api/track-loco/route.ts\<close>\<close>

subsection \<open>Data\<close>

text \<open>
  \<open>Omit<TrackingData, 'lat' | 'lng'>\<close>, the result type of \<open>parsePopupMsg\<close>, and
  \<open>TrackingData\<close>, which adds the coordinates to it.
\<close>

record ParsedInfo =
  station :: string
  event :: string
  speed :: string

record TrackingData = ParsedInfo +
  lat :: number
  lng :: number

text \<open>
  An element of the \<open>history\<close> array of the response. The source formats the instant with
  \<open>toLocaleString\<close>; the model keeps the instant itself, and \<open>None\<close> is \<open>undefined\<close>.
\<close>

record HistoryPoint = TrackingData +
  timestamp :: "nat option"

record TrackingApiResponse =
  current :: TrackingData
  history :: "HistoryPoint list"

text \<open>
  A stored document (\<open>ILocoData\<close>). A text field that an older document lacks is the empty
  string here: the handler reads these fields only through \<open>||\<close>, which treats a missing
  and an empty value alike.
\<close>

record ILocoData = TrackingData +
  locoId :: string
  createdAt :: "nat option"

datatype exn = Error (message: string)

datatype NextResponse =
    ErrorJson string nat
  | PayloadJson TrackingApiResponse

fun status_of :: "NextResponse \<Rightarrow> nat" where
  "status_of (ErrorJson msg code) = code"
| "status_of (PayloadJson payload) = 200"

subsection \<open>\<open>parsePopupMsg\<close>\<close>

text \<open>
  \<open>html.match(/Station: <b>(.*?)<\/b>/)\<close>: the leftmost position at which the label is
  followed, on the same line, by the closing tag; the group is the shortest text up to it.
  \<open>.\<close> does not match a line terminator.
\<close>

definition is_line_terminator :: "char \<Rightarrow> bool" where
  "is_line_terminator c = (of_char c \<in> {10::nat, 13})"

fun lazy_group :: "string \<Rightarrow> string option" where
  "lazy_group [] = None"
| "lazy_group (c # cs) =
     (if starts_with ''</b>'' (c # cs) then Some []
      else if is_line_terminator c then None
      else map_option ((#) c) (lazy_group cs))"

fun match_label :: "string \<Rightarrow> string \<Rightarrow> string option" where
  "match_label label [] = None"
| "match_label label (c # cs) =
     (case (if starts_with label (c # cs) then lazy_group (drop (length label) (c # cs)) else None) of
        Some g \<Rightarrow> Some g
      | None \<Rightarrow> match_label label cs)"

definition parsePopupMsg :: "string \<Rightarrow> ParsedInfo" where
  "parsePopupMsg html =
     (let stationMatch = match_label ''Station: <b>'' html;
          eventMatch = match_label ''Event: <b>'' html;
          speedMatch = match_label ''Speed: <b>'' html
      in \<lparr> station = (case stationMatch of Some g \<Rightarrow> g | None \<Rightarrow> ''N/A''),
           event = (case eventMatch of Some g \<Rightarrow> g | None \<Rightarrow> ''N/A''),
           speed = (case speedMatch of Some g \<Rightarrow> g | None \<Rightarrow> ''N/A'') \<rparr>)"

text \<open>
  What the regular expressions of \<open>parsePopupMsg\<close> are to find. The annotation holds the
  sub-field \<open>g\<close> under a label after the text \<open>a\<close> when \<open>a\<close>, the label, \<open>g\<close> and the
  closing tag occur in it one after the other, and \<open>g\<close> stays on one line. The sub-field
  that is extracted is the first match: the one that starts leftmost and, from that start,
  has the shortest text.
\<close>

definition matches_at :: "string \<Rightarrow> string \<Rightarrow> string \<Rightarrow> string \<Rightarrow> bool" where
  "matches_at label html a g \<longleftrightarrow>
     (\<exists>b. html = a @ label @ g @ ''</b>'' @ b) \<and> (\<forall>c\<in>set g. \<not> is_line_terminator c)"

definition occurs_labelled :: "string \<Rightarrow> string \<Rightarrow> string \<Rightarrow> bool" where
  "occurs_labelled label html g \<longleftrightarrow>
     (\<exists>a b. html = a @ label @ g @ ''</b>'' @ b) \<and> (\<forall>c\<in>set g. \<not> is_line_terminator c)"

definition extracted :: "string \<Rightarrow> string \<Rightarrow> string \<Rightarrow> bool" where
  "extracted label html g \<longleftrightarrow>
     (\<exists>a. matches_at label html a g \<and>
        (\<forall>a' g'. matches_at label html a' g' \<longrightarrow>
           length a < length a' \<or> (length a = length a' \<and> length g \<le> length g')))"

subsection \<open>The environment of a call\<close>

text \<open>
  The telemetry source answers with a row count and, when it has rows, an array of detail
  rows carrying the coordinates as strings and the annotation text. \<open>None\<close> is a property
  that is absent.
\<close>

record FoisRow =
  PopUpMsg :: "string option"
  Lttd :: "string option"
  Lgtd :: "string option"

record FoisData =
  RowCont :: "string option"
  LocoDtls :: "FoisRow list option"

record FoisResponse =
  ok :: bool
  status :: nat
  json :: "exn + FoisData"

text \<open>
  What the outside world does during one call: the request body (\<open>request.json()\<close> throws, or
  gives an object whose \<open>locoId\<close> is a string or absent), the answer of \<open>fetch\<close> to a URL,
  whether \<open>dbConnect\<close>, \<open>LocoData.find\<close> and \<open>LocoData.create\<close> throw, and the clock.
  The store is the list of documents in insertion order; its expiry of old documents does
  not happen during a call.
\<close>

record Env =
  request_json :: "exn + string option"
  fetch :: "string \<Rightarrow> exn + FoisResponse"
  dbConnect :: "exn option"
  find_error :: "exn option"
  create_error :: "exn option"
  now :: nat

datatype effect = Fetch string | DbConnect | DbFind string | DbCreate ILocoData

text \<open>The store operations of a call that try to persist a document.\<close>

fun is_DbCreate :: "effect \<Rightarrow> bool" where
  "is_DbCreate (DbCreate doc) = True"
| "is_DbCreate _ = False"

text \<open>The decimal digits of a status code, as the template literal of line 43 writes it.\<close>

fun decimal_digits :: "nat \<Rightarrow> string \<Rightarrow> string" where
  "decimal_digits n acc =
     (if n < 10 then char_of (n + 48) # acc
      else decimal_digits (n div 10) (char_of (n mod 10 + 48) # acc))"

declare decimal_digits.simps [simp del]

definition number_to_string :: "nat \<Rightarrow> string" where
  "number_to_string n = decimal_digits n []"

subsection \<open>\<open>POST\<close>\<close>

text \<open>
  Lines 50 to 56: the first detail row, its annotation parsed, its coordinates read with
  \<open>parseFloat\<close>. Reading a property of \<open>undefined\<close> (no first row, or no annotation to call
  \<open>match\<close> on) throws a \<open>TypeError\<close>, which is an \<open>Error\<close>.
\<close>

definition currentData :: "FoisRow list \<Rightarrow> exn + TrackingData" where
  "currentData rows =
     (case rows of
        [] \<Rightarrow> Inl (Error ''Cannot read properties of undefined (reading 'PopUpMsg')'')
      | currentDetails # _ \<Rightarrow>
          (case PopUpMsg currentDetails of
             None \<Rightarrow> Inl (Error ''Cannot read properties of undefined (reading 'match')'')
           | Some html \<Rightarrow>
               (let parsedInfo = parsePopupMsg html
                in Inr \<lparr> station = station parsedInfo,
                         event = event parsedInfo,
                         speed = speed parsedInfo,
                         lat = parseFloat_field (Lttd currentDetails),
                         lng = parseFloat_field (Lgtd currentDetails) \<rparr>)))"

text \<open>Line 68.\<close>

definition lastRecord :: "ILocoData list \<Rightarrow> ILocoData option" where
  "lastRecord historyRecords =
     (if length historyRecords > 0 then Some (historyRecords ! (length historyRecords - 1))
      else None)"

text \<open>Lines 71 to 74. The literal \<open>0.0001\<close> is the double nearest to that decimal.\<close>

definition COORDINATE_TOLERANCE :: number where
  "COORDINATE_TOLERANCE = to_double (1 / 10000)"

definition hasMoved :: "ILocoData option \<Rightarrow> TrackingData \<Rightarrow> bool" where
  "hasMoved lastRec cur =
     (case lastRec of
        None \<Rightarrow> True
      | Some r \<Rightarrow>
          js_gt (Math_abs (js_sub (lat r) (lat cur))) COORDINATE_TOLERANCE \<or>
          js_gt (Math_abs (js_sub (lng r) (lng cur))) COORDINATE_TOLERANCE)"

text \<open>Lines 95 to 113, the callback of \<open>historyRecords.map\<close>.\<close>

definition history_entry :: "ILocoData \<Rightarrow> HistoryPoint" where
  "history_entry r =
     \<lparr> station = (if station r \<noteq> [] then station r else ''Historical Position''),
       event = (if event r \<noteq> [] then event r else ''N/A''),
       speed = (if speed r \<noteq> [] then speed r else ''N/A''),
       lat = lat r,
       lng = lng r,
       timestamp = createdAt r \<rparr>"

text \<open>The object pushed at lines 117 and 127, at the instant \<open>t\<close>.\<close>

definition current_entry :: "TrackingData \<Rightarrow> nat \<Rightarrow> HistoryPoint" where
  "current_entry cur t =
     \<lparr> station = station cur, event = event cur, speed = speed cur,
       lat = lat cur, lng = lng cur, timestamp = Some t \<rparr>"

text \<open>Lines 94 to 135.\<close>

definition finalHistory ::
  "ILocoData list \<Rightarrow> TrackingData \<Rightarrow> bool \<Rightarrow> bool \<Rightarrow> nat \<Rightarrow> HistoryPoint list" where
  "finalHistory historyRecords cur moved newRecordSaved t =
     (let h = map history_entry historyRecords
      in if moved \<and> newRecordSaved then h @ [current_entry cur t]
         else if \<not> moved \<and> length h = 0 then h @ [current_entry cur t]
         else h)"

text \<open>Line 62: the documents of this locomotive, ascending by creation time.\<close>

definition find_sorted :: "ILocoData list \<Rightarrow> string \<Rightarrow> ILocoData list" where
  "find_sorted db loco = sort_key createdAt (filter (\<lambda>r. locoId r = loco) db)"

text \<open>Lines 82 to 85: the document that \<open>LocoData.create\<close> stores.\<close>

definition new_document :: "string \<Rightarrow> TrackingData \<Rightarrow> nat \<Rightarrow> ILocoData" where
  "new_document loco cur t =
     \<lparr> station = station cur, event = event cur, speed = speed cur,
       lat = lat cur, lng = lng cur, locoId = loco, createdAt = Some t \<rparr>"

text \<open>Lines 147 to 150, the outer \<open>catch\<close>.\<close>

definition catch_error :: "exn \<Rightarrow> NextResponse" where
  "catch_error e = ErrorJson (message e) 500"

text \<open>
  Lines 60 to 145: steps 2 to 6 of the handler, once the current data is known. The result
  is the response, the store after the call and the store operations attempted, in order.
\<close>

definition reconcile ::
  "Env \<Rightarrow> ILocoData list \<Rightarrow> string \<Rightarrow> TrackingData \<Rightarrow> NextResponse \<times> ILocoData list \<times> effect list" where
  "reconcile env db loco cur =
     (case dbConnect env of
        Some e \<Rightarrow> (catch_error e, db, [DbConnect])
      | None \<Rightarrow>
          (case find_error env of
             Some e \<Rightarrow> (catch_error e, db, [DbConnect, DbFind loco])
           | None \<Rightarrow>
               (let historyRecords = find_sorted db loco;
                    moved = hasMoved (lastRecord historyRecords) cur;
                    doc = new_document loco cur (now env);
                    newRecordSaved = (moved \<and> create_error env = None);
                    responsePayload =
                      \<lparr> current = cur,
                        history = finalHistory historyRecords cur moved newRecordSaved (now env) \<rparr>
                in (PayloadJson responsePayload,
                    (if newRecordSaved then db @ [doc] else db),
                    [DbConnect, DbFind loco] @ (if moved then [DbCreate doc] else [])))))"

definition apiUrl :: "string \<Rightarrow> string" where
  "apiUrl loco =
     ''https://fois.indianrail.gov.in/foisweb/GG_AjaxInteraction?Optn=RTIS_CURRENT_LOCO_RPTG&Loco='' @ loco"

text \<open>
  Lines 40 to 56: step 1, from the fetch to the current data. \<open>Inl\<close> is the response of an
  early return or of the outer \<open>catch\<close>.
\<close>

definition fetch_current :: "Env \<Rightarrow> string \<Rightarrow> NextResponse + TrackingData" where
  "fetch_current env loco =
     (case fetch env (apiUrl loco) of
        Inl e \<Rightarrow> Inl (catch_error e)
      | Inr foisResponse \<Rightarrow>
          if \<not> ok foisResponse
          then Inl (catch_error (Error (''FOIS API failed: '' @ number_to_string (status foisResponse))))
          else
            (case json foisResponse of
               Inl e \<Rightarrow> Inl (catch_error e)
             | Inr foisData \<Rightarrow>
                 (case LocoDtls foisData of
                    None \<Rightarrow> Inl (ErrorJson ''Loco not found or no data available.'' 404)
                  | Some rows \<Rightarrow>
                      if RowCont foisData = Some ''0''
                      then Inl (ErrorJson ''Loco not found or no data available.'' 404)
                      else
                        (case currentData rows of
                           Inl e \<Rightarrow> Inl (catch_error e)
                         | Inr cur \<Rightarrow> Inr cur))))"

text \<open>The whole handler, lines 31 to 152. A missing and an empty \<open>locoId\<close> are falsy.\<close>

definition POST :: "Env \<Rightarrow> ILocoData list \<Rightarrow> NextResponse \<times> ILocoData list \<times> effect list" where
  "POST env db =
     (case request_json env of
        Inl e \<Rightarrow> (catch_error e, db, [])
      | Inr body \<Rightarrow>
          (case body of
             None \<Rightarrow> (ErrorJson ''Loco ID is required'' 400, db, [])
           | Some loco \<Rightarrow>
               if loco = [] then (ErrorJson ''Loco ID is required'' 400, db, [])
               else
                 (case fetch_current env loco of
                    Inl response \<Rightarrow> (response, db, [Fetch (apiUrl loco)])
                  | Inr cur \<Rightarrow>
                      (case reconcile env db loco cur of
                         (response, db', effects) \<Rightarrow>
                           (response, db', Fetch (apiUrl loco) # effects)))))"

text \<open>
  A call lists the stored history when it gets past line 62: the request names a locomotive,
  step 1 yields the current data, and neither \<open>dbConnect\<close> nor \<open>find\<close> throws.
  \<open>listed\<close> gives the locomotive, the current data and the history records of such a call.
\<close>

definition listed ::
  "Env \<Rightarrow> ILocoData list \<Rightarrow> (string \<times> TrackingData \<times> ILocoData list) option" where
  "listed env db =
     (case request_json env of
        Inl e \<Rightarrow> None
      | Inr body \<Rightarrow>
          (case body of
             None \<Rightarrow> None
           | Some loco \<Rightarrow>
               if loco = [] then None
               else
                 (case fetch_current env loco of
                    Inl response \<Rightarrow> None
                  | Inr cur \<Rightarrow>
                      if dbConnect env = None \<and> find_error env = None
                      then Some (loco, cur, find_sorted db loco)
                      else None)))"

subsection \<open>Concrete calls\<close>

definition row_delhi :: FoisRow where
  "row_delhi = \<lparr> PopUpMsg = Some ''Station: <b>NDLS</b><br>Event: <b>Arrived</b>'',
                 Lttd = Some ''28.61'', Lgtd = Some ''77.20'' \<rparr>"

text \<open>
  The current data of that row: its coordinates are the doubles nearest to 28.61 and 77.2.
\<close>

definition cur_delhi :: TrackingData where
  "cur_delhi = \<lparr> station = ''NDLS'', event = ''Arrived'', speed = ''N/A'',
                 lat = Fin (2013249770922967 / 70368744177664),
                 lng = Fin (5432467050515661 / 70368744177664) \<rparr>"

definition fois_delhi :: "string \<Rightarrow> exn + FoisResponse" where
  "fois_delhi url = Inr \<lparr> ok = True, status = 200,
      json = Inr \<lparr> RowCont = Some ''1'', LocoDtls = Some [row_delhi] \<rparr> \<rparr>"

definition env_ok :: Env where
  "env_ok = \<lparr> request_json = Inr (Some ''37875''), fetch = fois_delhi, dbConnect = None,
              find_error = None, create_error = None, now = 5 \<rparr>"

definition env_insert_fails :: Env where
  "env_insert_fails = env_ok \<lparr> create_error := Some (Error ''store unavailable'') \<rparr>"

definition doc_far :: ILocoData where
  "doc_far = \<lparr> station = ''BCT'', event = ''Departed'', speed = ''40'',
               lat = Fin 19, lng = Fin 73, locoId = ''37875'', createdAt = Some 1 \<rparr>"

definition doc_delhi :: ILocoData where
  "doc_delhi = new_document ''37875'' cur_delhi 1"

text \<open>A stored document at the doubles nearest to 28.6099 and 77.2.\<close>

definition doc_edge :: ILocoData where
  "doc_edge = \<lparr> station = ''NDLS'', event = ''Arrived'', speed = ''0'',
                lat = Fin (8052970936194197 / 281474976710656),
                lng = Fin (5432467050515661 / 70368744177664),
                locoId = ''37875'', createdAt = Some 1 \<rparr>"

text \<open>
  The current data when the longitude field reads 77.2001 instead, and a stored document
  and current data whose latitudes are 0 and the double nearest to 0.0001.
\<close>

definition cur_delhi_east :: TrackingData where
  "cur_delhi_east = cur_delhi \<lparr> lng := Fin (5432474087390079 / 70368744177664) \<rparr>"

definition doc_origin :: ILocoData where
  "doc_origin = \<lparr> station = ''N/A'', event = ''N/A'', speed = ''N/A'',
                  lat = Fin 0, lng = Fin 0, locoId = ''37875'', createdAt = Some 1 \<rparr>"

definition cur_tolerance :: TrackingData where
  "cur_tolerance = \<lparr> station = ''N/A'', event = ''N/A'', speed = ''N/A'',
                     lat = Fin (7378697629483821 / 73786976294838206464), lng = Fin 0 \<rparr>"

definition env_retry :: Env where
  "env_retry = env_ok \<lparr> now := 35 \<rparr>"

definition env_no_id :: Env where
  "env_no_id = env_ok \<lparr> request_json := Inr None \<rparr>"

definition fois_zero_rows :: "string \<Rightarrow> exn + FoisResponse" where
  "fois_zero_rows url = Inr \<lparr> ok = True, status = 200,
      json = Inr \<lparr> RowCont = Some ''0'', LocoDtls = Some [] \<rparr> \<rparr>"

definition env_zero_rows :: Env where
  "env_zero_rows = env_ok \<lparr> fetch := fois_zero_rows \<rparr>"

definition fois_down :: "string \<Rightarrow> exn + FoisResponse" where
  "fois_down url = Inr \<lparr> ok = False, status = 503, json = Inl (Error ''Unexpected token'') \<rparr>"

definition env_fois_down :: Env where
  "env_fois_down = env_ok \<lparr> fetch := fois_down \<rparr>"

definition env_db_down :: Env where
  "env_db_down = env_ok \<lparr> dbConnect := Some (Error ''connection refused'') \<rparr>"

definition row_malformed :: FoisRow where
  "row_malformed = \<lparr> PopUpMsg = Some ''<p>Station: <b>NDLS</b></p>'', Lttd = Some ''abc'',
                     Lgtd = None \<rparr>"

definition cur_nan :: TrackingData where
  "cur_nan = \<lparr> station = ''NDLS'', event = ''N/A'', speed = ''N/A'', lat = NaN, lng = NaN \<rparr>"

definition fois_malformed :: "string \<Rightarrow> exn + FoisResponse" where
  "fois_malformed url = Inr \<lparr> ok = True, status = 200,
      json = Inr \<lparr> RowCont = Some ''1'', LocoDtls = Some [row_malformed] \<rparr> \<rparr>"

definition env_malformed :: Env where
  "env_malformed = env_ok \<lparr> fetch := fois_malformed \<rparr>"

definition html_delhi :: string where
  "html_delhi = ''Station: <b>NDLS</b><br>Event: <b>Arrived</b>''"

section \<open>The page \<open>app/page.tsx\<close>\<close>

text \<open>
  The state of the component: its six state variables, the interval timer held in
  \<open>intervalRef\<close> (\<open>None\<close> when no timer is armed, otherwise the locomotive id its callback
  captured), and the calls of \<open>fetchData\<close> that await their response. Each such call is
  recorded with the value of \<open>isTracking\<close> in the closure that made it: the function reads
  that value, not the state at the time the response arrives.
\<close>

record Home =
  locoId_state :: string
  currentData_state :: "TrackingData option"
  historyData :: "HistoryPoint list"
  isTracking :: bool
  isLoading :: bool
  error :: "string option"
  interval :: "string option"
  in_flight :: "bool list"

text \<open>
  What a call of the route gives the page: \<open>fetch\<close> or \<open>response.json()\<close> throws, or the
  route's response arrives. A response with an \<open>error\<close> key is never \<open>ok\<close>.
\<close>

datatype poll_outcome = Rejected exn | Answered NextResponse

text \<open>Lines 24 to 30 of \<open>fetchData\<close>, up to the first \<open>await\<close>.\<close>

definition fetchData_begin :: "bool \<Rightarrow> Home \<Rightarrow> Home" where
  "fetchData_begin tracking s =
     s \<lparr> isLoading := (if \<not> tracking then True else isLoading s),
         error := None,
         in_flight := in_flight s @ [tracking] \<rparr>"

text \<open>Lines 35 to 53 of \<open>fetchData\<close>, after the response has arrived.\<close>

definition fetchData_settle :: "bool \<Rightarrow> poll_outcome \<Rightarrow> Home \<Rightarrow> Home" where
  "fetchData_settle tracking outcome s =
     (case outcome of
        Rejected e \<Rightarrow> s \<lparr> error := Some (message e), isTracking := False, isLoading := False \<rparr>
      | Answered response \<Rightarrow>
          (case response of
             ErrorJson msg code \<Rightarrow>
               s \<lparr> error := Some (if msg \<noteq> [] then msg else ''Failed to fetch data''),
                   isTracking := False, isLoading := False \<rparr>
           | PayloadJson data \<Rightarrow>
               s \<lparr> currentData_state := Some (current data),
                   historyData := history data,
                   isTracking := (if \<not> tracking then True else isTracking s),
                   isLoading := False \<rparr>))"

text \<open>Lines 75 to 86.\<close>

definition handleFormSubmit :: "Home \<Rightarrow> Home" where
  "handleFormSubmit s =
     (if isTracking s then s \<lparr> isTracking := False \<rparr>
      else fetchData_begin (isTracking s) (s \<lparr> currentData_state := None, historyData := [] \<rparr>))"

text \<open>
  Lines 57 to 73. The effect runs after a render in which \<open>isTracking\<close> or \<open>locoId\<close> has
  changed: the cleanup of the previous run clears the timer, then the body arms a new one
  when tracking. Its callback calls the \<open>fetchData\<close> of a render in which \<open>isTracking\<close> is
  true.
\<close>

definition useEffect :: "Home \<Rightarrow> Home \<Rightarrow> Home" where
  "useEffect before after =
     (if isTracking after = isTracking before \<and> locoId_state after = locoId_state before then after
      else after \<lparr> interval := (if isTracking after then Some (locoId_state after) else None) \<rparr>)"

text \<open>
  What can happen to the component: the form is submitted, the input is edited, the timer
  fires, a pending call of \<open>fetchData\<close> receives its outcome. The form and the input are
  disabled while \<open>isLoading\<close>; a timer that is not armed does not fire. Handlers run one at
  a time, and the state they set is rendered, with its effect, before the next one runs.
\<close>

datatype event = Submit | Change string | Tick | Settle nat poll_outcome

definition handle :: "event \<Rightarrow> Home \<Rightarrow> Home" where
  "handle ev s =
     (case ev of
        Submit \<Rightarrow> if isLoading s then s else handleFormSubmit s
      | Change v \<Rightarrow> if isLoading s then s else s \<lparr> locoId_state := v \<rparr>
      | Tick \<Rightarrow> (case interval s of None \<Rightarrow> s | Some loco \<Rightarrow> fetchData_begin True s)
      | Settle i outcome \<Rightarrow>
          if i < length (in_flight s)
          then fetchData_settle (in_flight s ! i) outcome
                 (s \<lparr> in_flight := take i (in_flight s) @ drop (Suc i) (in_flight s) \<rparr>)
          else s)"

definition step :: "event \<Rightarrow> Home \<Rightarrow> Home" where
  "step ev s = useEffect s (handle ev s)"

fun run :: "event list \<Rightarrow> Home \<Rightarrow> Home" where
  "run [] s = s"
| "run (ev # evs) s = run evs (step ev s)"

text \<open>The events that are not actions of the user on the form.\<close>

fun background :: "event \<Rightarrow> bool" where
  "background Tick = True"
| "background (Settle i outcome) = True"
| "background _ = False"

subsection \<open>Concrete sessions\<close>

definition Home_initial :: Home where
  "Home_initial = \<lparr> locoId_state = ''37875'', currentData_state = None, historyData = [],
      isTracking = False, isLoading = False, error = None, interval = None, in_flight = [] \<rparr>"

definition snapshot_delhi :: TrackingApiResponse where
  "snapshot_delhi = \<lparr> current = cur_delhi, history = [current_entry cur_delhi 5] \<rparr>"

definition cur_agra :: TrackingData where
  "cur_agra = \<lparr> station = ''AGC'', event = ''Departed'', speed = ''60'',
                lat = Fin (3825244933497815 / 140737488355328),
                lng = Fin (5490169420741345 / 70368744177664) \<rparr>"

definition snapshot_agra :: TrackingApiResponse where
  "snapshot_agra = \<lparr> current = cur_agra,
      history = [current_entry cur_delhi 5, current_entry cur_agra 35] \<rparr>"

definition Home_tracking :: Home where
  "Home_tracking = \<lparr> locoId_state = ''37875'', currentData_state = Some cur_delhi,
      historyData = [current_entry cur_delhi 5],
      isTracking = True, isLoading = False, error = None, interval = Some ''37875'',
      in_flight = [] \<rparr>"

text \<open>A session after a stop: not tracking, no timer, and only calls made by ticks pending.\<close>

definition stopped :: "Home \<Rightarrow> bool" where
  "stopped s \<longleftrightarrow> \<not> isTracking s \<and> interval s = None \<and> list_all (\<lambda>b. b) (in_flight s)"

section \<open>Properties of the route handler\<close>

subsection \<open>Auxiliary facts\<close>

lemma listed_SomeD:
  assumes "listed env db = Some (loco, cur, hs)"
  shows "request_json env = Inr (Some loco)" and "loco \<noteq> []"
    and "fetch_current env loco = Inr cur" and "dbConnect env = None"
    and "find_error env = None" and "hs = find_sorted db loco"
  using assms
  by (auto simp: listed_def split: sum.splits option.splits if_splits)

lemma POST_listed:
  assumes "listed env db = Some (loco, cur, hs)"
  shows "POST env db =
    (PayloadJson \<lparr> current = cur,
        history = finalHistory hs cur (hasMoved (lastRecord hs) cur)
                    (hasMoved (lastRecord hs) cur \<and> create_error env = None) (now env) \<rparr>,
     (if hasMoved (lastRecord hs) cur \<and> create_error env = None
      then db @ [new_document loco cur (now env)] else db),
     Fetch (apiUrl loco) # DbConnect # DbFind loco #
       (if hasMoved (lastRecord hs) cur then [DbCreate (new_document loco cur (now env))] else []))"
  using listed_SomeD[OF assms]
  by (simp add: POST_def reconcile_def Let_def)

lemmas double_defs = to_double_def binary_exponent_def round_half_even_def Let_def
  bit_length.simps

lemma COORDINATE_TOLERANCE_value:
  "COORDINATE_TOLERANCE = Fin (7378697629483821 / 73786976294838206464)"
  by (simp add: COORDINATE_TOLERANCE_def double_defs)

lemma js_gt_self: "js_gt (Math_abs (js_sub x x)) COORDINATE_TOLERANCE = False"
  by (cases x) (simp_all add: COORDINATE_TOLERANCE_value to_double_def)

lemmas parse_defs = parseFloat_field_def parseFloat_def unsigned_literal_def starts_with_def
  is_space_def is_digit_def exponent_part_def parsePopupMsg_def is_line_terminator_def
  double_defs

lemma currentData_delhi: "currentData [row_delhi] = Inr cur_delhi"
  by (simp add: currentData_def row_delhi_def cur_delhi_def parse_defs)

lemma env_ok_fields:
  "request_json env_ok = Inr (Some ''37875'')" "fetch env_ok = fois_delhi"
  "dbConnect env_ok = None" "find_error env_ok = None" "create_error env_ok = None"
  "now env_ok = 5"
  by (simp_all add: env_ok_def)

lemma env_insert_fails_fields:
  "request_json env_insert_fails = Inr (Some ''37875'')" "fetch env_insert_fails = fois_delhi"
  "dbConnect env_insert_fails = None" "find_error env_insert_fails = None"
  "create_error env_insert_fails = Some (Error ''store unavailable'')"
  "now env_insert_fails = 5"
  by (simp_all add: env_insert_fails_def env_ok_def)

lemma fetch_current_delhi: "fetch env = fois_delhi \<Longrightarrow> fetch_current env loco = Inr cur_delhi"
  by (simp add: fetch_current_def fois_delhi_def currentData_delhi)

lemma find_sorted_Nil: "find_sorted [] loco = []"
  by (simp add: find_sorted_def)

lemma listed_fail_empty: "listed env_insert_fails [] = Some (''37875'', cur_delhi, [])"
  by (simp add: listed_def fetch_current_delhi find_sorted_Nil env_insert_fails_fields)

lemma env_retry_fields:
  "request_json env_retry = Inr (Some ''37875'')" "fetch env_retry = fois_delhi"
  "dbConnect env_retry = None" "find_error env_retry = None" "create_error env_retry = None"
  "now env_retry = 35"
  by (simp_all add: env_retry_def env_ok_def)

lemma find_sorted_single: "locoId d = loco \<Longrightarrow> find_sorted [d] loco = [d]"
  by (simp add: find_sorted_def)

lemma locoId_docs: "locoId doc_far = ''37875''" "locoId doc_delhi = ''37875''" "locoId doc_edge = ''37875''"
  by (simp_all add: doc_far_def doc_delhi_def doc_edge_def new_document_def)

lemma listed_delhi:
  assumes "request_json env = Inr (Some ''37875'')" "fetch env = fois_delhi"
    "dbConnect env = None" "find_error env = None"
  shows "listed env db = Some (''37875'', cur_delhi, find_sorted db ''37875'')"
  using assms by (simp add: listed_def fetch_current_delhi)

lemma lastRecord_snoc: "lastRecord (xs @ [x]) = Some x"
  by (simp add: lastRecord_def)

lemma lastRecord_last: "hs \<noteq> [] \<Longrightarrow> lastRecord hs = Some (last hs)"
  by (simp add: lastRecord_def last_conv_nth)

lemma lastRecord_Nil: "lastRecord [] = None"
  by (simp add: lastRecord_def)

lemma hasMoved_far: "hasMoved (Some doc_far) cur_delhi"
  by (simp add: hasMoved_def doc_far_def cur_delhi_def COORDINATE_TOLERANCE_value double_defs)

lemma hasMoved_edge: "\<not> hasMoved (Some doc_edge) cur_delhi"
  by (simp add: hasMoved_def doc_edge_def cur_delhi_def COORDINATE_TOLERANCE_value double_defs)

lemma hasMoved_east: "hasMoved (Some doc_delhi) cur_delhi_east"
  by (simp add: hasMoved_def doc_delhi_def new_document_def cur_delhi_east_def cur_delhi_def
      COORDINATE_TOLERANCE_value double_defs)

lemma parseFloat_east:
  "parseFloat ''77.2001'' = lng cur_delhi_east \<and> parseFloat ''77.20'' = lng doc_delhi"
  by (simp add: cur_delhi_east_def doc_delhi_def new_document_def cur_delhi_def parse_defs)

lemma delta_tolerance:
  "Math_abs (js_sub (lat doc_origin) (lat cur_tolerance)) = COORDINATE_TOLERANCE \<and>
   Math_abs (js_sub (lng doc_origin) (lng cur_tolerance)) = Fin 0"
  by (simp add: doc_origin_def cur_tolerance_def COORDINATE_TOLERANCE_value double_defs)

lemma hasMoved_new_document: "\<not> hasMoved (Some (new_document loco cur t)) cur"
  by (simp add: hasMoved_def new_document_def js_gt_self)

lemma insort_key_snoc:
  "f a \<le> f x \<Longrightarrow> insort_key f a (ys @ [x]) = insort_key f a ys @ [x]"
  by (induction ys) simp_all

lemma foldr_insort_key_snoc:
  "\<forall>y\<in>set xs. f y \<le> f x \<Longrightarrow> foldr (insort_key f) xs [x] = sort_key f xs @ [x]"
  by (induction xs) (simp_all add: sort_key_def insort_key_snoc)

lemma sort_key_snoc:
  "\<forall>y\<in>set xs. f y \<le> f x \<Longrightarrow> sort_key f (xs @ [x]) = sort_key f xs @ [x]"
  using foldr_insort_key_snoc[of xs f x] by (simp add: sort_key_def)

lemma find_sorted_snoc:
  assumes "locoId d = loco" and "\<forall>r\<in>set db. createdAt r \<le> createdAt d"
  shows "find_sorted (db @ [d]) loco = find_sorted db loco @ [d]"
  using assms by (simp add: find_sorted_def sort_key_snoc)

lemma fetch_current_cong: "fetch env2 = fetch env1 \<Longrightarrow> fetch_current env2 loco = fetch_current env1 loco"
  by (simp add: fetch_current_def)

lemma POST_not_listed: "listed env db = None \<Longrightarrow> fst (snd (POST env db)) = db"
  by (auto simp: listed_def POST_def reconcile_def split: sum.splits option.splits if_splits)

lemma POST_store:
  "fst (snd (POST env db)) = db \<or>
   (\<exists>loco cur. listed env db = Some (loco, cur, find_sorted db loco) \<and>
      hasMoved (lastRecord (find_sorted db loco)) cur \<and> create_error env = None \<and>
      fst (snd (POST env db)) = db @ [new_document loco cur (now env)])"
proof (cases "listed env db")
  case None
  then show ?thesis by (simp add: POST_not_listed)
next
  case (Some t)
  obtain loco cur hs where t: "t = (loco, cur, hs)" by (cases t)
  have l: "listed env db = Some (loco, cur, hs)" using Some t by simp
  have hs: "hs = find_sorted db loco" using listed_SomeD(6)[OF l] .
  show ?thesis using l hs by (auto simp: POST_listed[OF l])
qed

lemma POST_effects_create: "length (filter is_DbCreate (snd (snd (POST env db)))) \<le> 1"
  by (auto simp: POST_def reconcile_def Let_def split: sum.splits option.splits if_splits)

lemma second_call_unchanged:
  assumes l1: "listed env1 db = Some (loco, cur, hs)"
    and ok: "hasMoved (lastRecord hs) cur \<longrightarrow> create_error env1 = None"
    and clock: "\<forall>r\<in>set db. createdAt r \<le> Some (now env1)"
    and req: "request_json env2 = request_json env1" and fet: "fetch env2 = fetch env1"
  shows "fst (snd (POST env2 (fst (snd (POST env1 db))))) = fst (snd (POST env1 db))"
proof (cases "listed env2 (fst (snd (POST env1 db)))")
  case None
  then show ?thesis by (rule POST_not_listed)
next
  case (Some t)
  let ?db1 = "fst (snd (POST env1 db))"
  obtain loco2 cur2 hs2 where t: "t = (loco2, cur2, hs2)" by (cases t)
  have l2: "listed env2 ?db1 = Some (loco2, cur2, hs2)" using Some t by simp
  note d1 = listed_SomeD[OF l1] and d2 = listed_SomeD[OF l2]
  have loco: "loco2 = loco" using d1(1) d2(1) req by simp
  have cur: "cur2 = cur" using d1(3) d2(3) fetch_current_cong[OF fet, of loco] loco by simp
  have hs: "hs = find_sorted db loco" using d1(6) .
  have still: "\<not> hasMoved (lastRecord hs2) cur"
  proof (cases "hasMoved (lastRecord hs) cur")
    case True
    then have db1: "?db1 = db @ [new_document loco cur (now env1)]"
      using ok by (simp add: POST_listed[OF l1])
    have "find_sorted ?db1 loco = hs @ [new_document loco cur (now env1)]"
      unfolding db1 hs using clock
      by (intro find_sorted_snoc) (simp_all add: new_document_def)
    then have "lastRecord hs2 = Some (new_document loco cur (now env1))"
      using d2(6) loco by (simp add: lastRecord_snoc)
    then show ?thesis by (simp add: hasMoved_new_document)
  next
    case False
    then have "?db1 = db" by (simp add: POST_listed[OF l1])
    then have "hs2 = hs" using d2(6) hs loco by simp
    then show ?thesis using False by simp
  qed
  show ?thesis using still loco cur by (simp add: POST_listed[OF l2])
qed

lemma fetch_current_Inl_status:
  "fetch_current env loco = Inl response \<Longrightarrow> status_of response \<in> {404, 500}"
  by (auto simp: fetch_current_def catch_error_def split: sum.splits option.splits if_splits)

lemma reconcile_status_fail:
  "dbConnect env \<noteq> None \<or> find_error env \<noteq> None \<Longrightarrow> status_of (fst (reconcile env db loco cur)) = 500"
  by (auto simp: reconcile_def catch_error_def split: option.splits)

lemma POST_listed_None_status:
  assumes "listed env db = None"
  shows "status_of (fst (POST env db)) \<in> {400, 404, 500}"
proof (cases "request_json env")
  case (Inl e)
  then show ?thesis by (simp add: POST_def catch_error_def)
next
  case (Inr body)
  show ?thesis
  proof (cases body)
    case None
    then show ?thesis using Inr by (simp add: POST_def)
  next
    case (Some loco)
    show ?thesis
    proof (cases "loco = []")
      case True
      then show ?thesis using Inr Some by (simp add: POST_def)
    next
      case False
      show ?thesis
      proof (cases "fetch_current env loco")
        case (Inl response)
        then show ?thesis
          using Inr Some False fetch_current_Inl_status[OF Inl] by (simp add: POST_def)
      next
        case r: (Inr cur)
        then have "dbConnect env \<noteq> None \<or> find_error env \<noteq> None"
          using assms Inr Some False by (auto simp: listed_def split: if_splits)
        then have "status_of (fst (reconcile env db loco cur)) = 500"
          by (rule reconcile_status_fail)
        then show ?thesis
          using Inr Some False r by (cases "reconcile env db loco cur") (simp add: POST_def)
      qed
    qed
  qed
qed

lemma env_no_id_fields: "request_json env_no_id = Inr None"
  by (simp add: env_no_id_def env_ok_def)

lemma env_zero_rows_fields:
  "request_json env_zero_rows = Inr (Some ''37875'')" "fetch env_zero_rows = fois_zero_rows"
  by (simp_all add: env_zero_rows_def env_ok_def)

lemma env_fois_down_fields:
  "request_json env_fois_down = Inr (Some ''37875'')" "fetch env_fois_down = fois_down"
  by (simp_all add: env_fois_down_def env_ok_def)

lemma env_db_down_fields:
  "request_json env_db_down = Inr (Some ''37875'')" "fetch env_db_down = fois_delhi"
  "dbConnect env_db_down = Some (Error ''connection refused'')"
  by (simp_all add: env_db_down_def env_ok_def)

lemma parseFloat_undefined: "parseFloat_field None = NaN"
  by (simp add: parse_defs)

lemma currentData_malformed: "currentData [row_malformed] = Inr cur_nan"
  by (simp add: currentData_def row_malformed_def cur_nan_def parse_defs)

lemma starts_with_append: "starts_with p (p @ s)"
  by (simp add: starts_with_def)

lemma starts_withD: "starts_with p s \<Longrightarrow> \<exists>r. s = p @ r"
  unfolding starts_with_def by (metis append_take_drop_id)

lemma lazy_group_Some:
  "lazy_group s = Some g \<Longrightarrow> (\<exists>b. s = g @ ''</b>'' @ b) \<and> (\<forall>c\<in>set g. \<not> is_line_terminator c)"
proof (induction s arbitrary: g)
  case Nil
  then show ?case by simp
next
  case (Cons c cs)
  show ?case
  proof (cases "starts_with ''</b>'' (c # cs)")
    case True
    then have "g = []" using Cons.prems by simp
    then show ?thesis using starts_withD[OF True] by simp
  next
    case False
    then obtain g' where g': "lazy_group cs = Some g'" "g = c # g'" "\<not> is_line_terminator c"
      using Cons.prems by (auto split: if_splits)
    from Cons.IH[OF g'(1)] g'(2,3) show ?thesis by auto
  qed
qed

lemma lazy_group_None:
  "lazy_group s = None \<Longrightarrow> \<forall>c\<in>set g. \<not> is_line_terminator c \<Longrightarrow> s \<noteq> g @ ''</b>'' @ b"
proof (induction s arbitrary: g)
  case Nil
  then show ?case by simp
next
  case (Cons c cs)
  show ?case
  proof (cases g)
    case Nil
    show ?thesis
    proof
      assume "c # cs = g @ ''</b>'' @ b"
      then have "starts_with ''</b>'' (c # cs)" using Nil starts_with_append[of "''</b>''" b] by simp
      then show False using Cons.prems(1) by simp
    qed
  next
    case (Cons x g')
    show ?thesis
    proof
      assume eq: "c # cs = g @ ''</b>'' @ b"
      then have x: "x = c" and cs: "cs = g' @ ''</b>'' @ b" using Cons by simp_all
      have nlt: "\<not> is_line_terminator c" using Cons.prems(2) Cons x by simp
      have "lazy_group cs = None"
        using Cons.prems(1) nlt by (auto split: if_splits)
      moreover have "\<forall>c\<in>set g'. \<not> is_line_terminator c" using Cons.prems(2) Cons by simp
      ultimately show False using Cons.IH cs by blast
    qed
  qed
qed

lemma match_label_Some: "match_label label s = Some g \<Longrightarrow> occurs_labelled label s g"
proof (induction s)
  case Nil
  then show ?case by simp
next
  case (Cons c cs)
  show ?case
  proof (cases "starts_with label (c # cs) \<and> lazy_group (drop (length label) (c # cs)) \<noteq> None")
    case True
    then obtain g0 where g0: "lazy_group (drop (length label) (c # cs)) = Some g0" by auto
    then have "g0 = g" using Cons.prems True by simp
    from lazy_group_Some[OF g0] obtain b where
      b: "drop (length label) (c # cs) = g0 @ ''</b>'' @ b" and n: "\<forall>c\<in>set g0. \<not> is_line_terminator c"
      by blast
    have "c # cs = label @ drop (length label) (c # cs)"
      using True unfolding starts_with_def by (metis append_take_drop_id)
    then have "c # cs = [] @ label @ g0 @ ''</b>'' @ b" using b by simp
    then show ?thesis using n \<open>g0 = g\<close> unfolding occurs_labelled_def by blast
  next
    case False
    then have "match_label label cs = Some g" using Cons.prems by (auto split: if_splits)
    from Cons.IH[OF this] obtain a b where "cs = a @ label @ g @ ''</b>'' @ b"
      and n: "\<forall>c\<in>set g. \<not> is_line_terminator c"
      unfolding occurs_labelled_def by blast
    then have "c # cs = (c # a) @ label @ g @ ''</b>'' @ b" by simp
    then show ?thesis using n unfolding occurs_labelled_def by blast
  qed
qed

lemma match_label_None: "match_label label s = None \<Longrightarrow> \<not> occurs_labelled label s g"
proof (induction s)
  case Nil
  then show ?case by (simp add: occurs_labelled_def)
next
  case (Cons c cs)
  have rest: "match_label label cs = None"
    using Cons.prems by (auto split: if_splits option.splits)
  show ?case
  proof
    assume "occurs_labelled label (c # cs) g"
    then obtain a b where eq: "c # cs = a @ label @ g @ ''</b>'' @ b"
      and n: "\<forall>c\<in>set g. \<not> is_line_terminator c"
      unfolding occurs_labelled_def by blast
    show False
    proof (cases a)
      case Nil
      then have sw: "starts_with label (c # cs)" using eq starts_with_append[of label] by simp
      have "drop (length label) (c # cs) = g @ ''</b>'' @ b" using eq Nil by simp
      moreover have "lazy_group (drop (length label) (c # cs)) = None"
        using Cons.prems sw by (auto split: option.splits)
      ultimately show False using lazy_group_None n by metis
    next
      case (Cons x a')
      then have "cs = a' @ label @ g @ ''</b>'' @ b" using eq by simp
      then have "occurs_labelled label cs g" using n unfolding occurs_labelled_def by blast
      then show False using Cons.IH[OF rest] by simp
    qed
  qed
qed

lemma occurs_labelled_matches: "occurs_labelled label html g \<longleftrightarrow> (\<exists>a. matches_at label html a g)"
  by (auto simp: occurs_labelled_def matches_at_def)

lemma lazy_group_shortest:
  "lazy_group s = Some g \<Longrightarrow> s = g' @ ''</b>'' @ b' \<Longrightarrow> length g \<le> length g'"
proof (induction s arbitrary: g g')
  case Nil
  then show ?case by simp
next
  case (Cons c cs)
  show ?case
  proof (cases "starts_with ''</b>'' (c # cs)")
    case True
    then have "g = []" using Cons.prems(1) by simp
    then show ?thesis by simp
  next
    case False
    then obtain g0 where g0: "lazy_group cs = Some g0" "g = c # g0"
      using Cons.prems(1) by (auto split: if_splits)
    show ?thesis
    proof (cases g')
      case Nil
      then have "starts_with ''</b>'' (c # cs)"
        using Cons.prems(2) starts_with_append[of "''</b>''" b'] by simp
      then show ?thesis using False by simp
    next
      case (Cons x g'')
      then have "cs = g'' @ ''</b>'' @ b'" using Cons.prems(2) by simp
      from Cons.IH[OF g0(1) this] show ?thesis using g0(2) Cons by simp
    qed
  qed
qed

lemma match_label_extracted: "match_label label s = Some g \<Longrightarrow> extracted label s g"
proof (induction s)
  case Nil
  then show ?case by simp
next
  case (Cons c cs)
  show ?case
  proof (cases "starts_with label (c # cs) \<and> lazy_group (drop (length label) (c # cs)) \<noteq> None")
    case True
    then obtain g0 where g0: "lazy_group (drop (length label) (c # cs)) = Some g0" by auto
    then have gg: "g0 = g" using Cons.prems True by simp
    from lazy_group_Some[OF g0] obtain b where
      b: "drop (length label) (c # cs) = g0 @ ''</b>'' @ b" and n: "\<forall>c\<in>set g0. \<not> is_line_terminator c"
      by blast
    have sl: "c # cs = label @ drop (length label) (c # cs)"
      using True unfolding starts_with_def by (metis append_take_drop_id)
    then have "c # cs = [] @ label @ g0 @ ''</b>'' @ b" using b by simp
    then have m: "matches_at label (c # cs) [] g" using n gg unfolding matches_at_def by blast
    have least: "length ([]::string) < length a' \<or> (length ([]::string) = length a' \<and> length g \<le> length g')"
      if m': "matches_at label (c # cs) a' g'" for a' g'
    proof (cases a')
      case Nil
      then obtain b' where "c # cs = label @ g' @ ''</b>'' @ b'"
        using m' unfolding matches_at_def by auto
      then have "drop (length label) (c # cs) = g' @ ''</b>'' @ b'" by simp
      from lazy_group_shortest[OF g0 this] show ?thesis using gg Nil by simp
    next
      case (Cons x xs)
      then show ?thesis by simp
    qed
    show ?thesis unfolding extracted_def using m least by blast
  next
    case False
    then have rest: "match_label label cs = Some g" using Cons.prems by (auto split: if_splits)
    from Cons.IH[OF rest] obtain a where a: "matches_at label cs a g"
      and least: "\<And>a' g'. matches_at label cs a' g' \<Longrightarrow>
          length a < length a' \<or> (length a = length a' \<and> length g \<le> length g')"
      unfolding extracted_def by blast
    have m: "matches_at label (c # cs) (c # a) g"
      using a unfolding matches_at_def by auto
    have least': "length (c # a) < length a' \<or> (length (c # a) = length a' \<and> length g \<le> length g')"
      if m': "matches_at label (c # cs) a' g'" for a' g'
    proof (cases a')
      case Nil
      then obtain b' where eq: "c # cs = label @ g' @ ''</b>'' @ b'"
        and n': "\<forall>c\<in>set g'. \<not> is_line_terminator c"
        using m' unfolding matches_at_def by auto
      have sw: "starts_with label (c # cs)" using eq starts_with_append[of label] by simp
      have "drop (length label) (c # cs) = g' @ ''</b>'' @ b'" using eq by simp
      then have "lazy_group (drop (length label) (c # cs)) \<noteq> None"
        using lazy_group_None n' by metis
      then show ?thesis using False sw by simp
    next
      case (Cons x xs)
      then have "matches_at label cs xs g'" using m' unfolding matches_at_def by auto
      from least[OF this] show ?thesis using Cons by simp
    qed
    show ?thesis unfolding extracted_def using m least' by blast
  qed
qed

lemma extracted_unique:
  assumes "extracted label s g" and "extracted label s g'"
  shows "g = g'"
proof -
  from assms(1) obtain a b where a: "s = a @ label @ g @ ''</b>'' @ b"
    and ma: "matches_at label s a g"
    and la: "\<And>x y. matches_at label s x y \<Longrightarrow> length a < length x \<or> (length a = length x \<and> length g \<le> length y)"
    unfolding extracted_def matches_at_def by blast
  from assms(2) obtain a' b' where a': "s = a' @ label @ g' @ ''</b>'' @ b'"
    and ma': "matches_at label s a' g'"
    and la': "\<And>x y. matches_at label s x y \<Longrightarrow> length a' < length x \<or> (length a' = length x \<and> length g' \<le> length y)"
    unfolding extracted_def matches_at_def by blast
  from la[OF ma'] la'[OF ma] have len: "length a = length a'" "length g = length g'" by auto
  from a a' len(1) have "a = a'" and rest: "label @ g @ ''</b>'' @ b = label @ g' @ ''</b>'' @ b'"
    by (metis append_eq_append_conv)+
  then show ?thesis using len(2) by simp
qed

lemma match_label_field:
  assumes v: "v = (case match_label label html of Some g \<Rightarrow> g | None \<Rightarrow> ''N/A'')"
  shows "((\<exists>g. occurs_labelled label html g) \<longrightarrow> extracted label html v) \<and>
      (\<forall>g. extracted label html g \<longrightarrow> v = g) \<and>
      ((\<forall>g. \<not> occurs_labelled label html g) \<longrightarrow> v = ''N/A'')"
proof (cases "match_label label html")
  case None
  have no: "\<not> occurs_labelled label html g" for g using match_label_None[OF None] .
  have "\<not> extracted label html g" for g
    using no[of g] unfolding extracted_def occurs_labelled_matches by blast
  then show ?thesis using None no v by simp
next
  case (Some g)
  have e: "extracted label html g" using match_label_extracted[OF Some] .
  have o: "occurs_labelled label html g" using match_label_Some[OF Some] .
  have "v = g" using v Some by simp
  then show ?thesis using e o extracted_unique[OF e] by blast
qed

lemma parseFloat_limits: "parseFloat ''1e309'' = PosInf \<and> parseFloat ''1e-324'' = Fin 0"
  by (simp add: parse_defs)

subsection \<open>The movement detector\<close>

text \<open>
  Claim C5. Without a last record the detector answers true. With a last record it answers
  true exactly when the absolute difference of the latitudes or of the longitudes, as the
  subtraction of doubles computes it, is greater than the tolerance, the double nearest to
  0.0001. The comparison is strict: a coordinate whose computed difference is exactly the
  tolerance contributes no movement. A position compared with itself is never a movement,
  whatever its coordinates are.
\<close>

theorem hasMoved_rule:
  "hasMoved None cur \<and>
   (hasMoved (Some r) cur \<longleftrightarrow>
      js_gt (Math_abs (js_sub (lat r) (lat cur))) COORDINATE_TOLERANCE \<or>
      js_gt (Math_abs (js_sub (lng r) (lng cur))) COORDINATE_TOLERANCE) \<and>
   COORDINATE_TOLERANCE = Fin (7378697629483821 / 2 ^ 66) \<and>
   (lat r = Fin a \<and> lat cur = Fin b \<and> lng r = Fin c \<and> lng cur = Fin d \<and>
    to_double (a - b) = Fin u \<and> to_double (c - d) = Fin v \<longrightarrow>
      (hasMoved (Some r) cur \<longleftrightarrow>
         \<bar>u\<bar> > 7378697629483821 / 2 ^ 66 \<or> \<bar>v\<bar> > 7378697629483821 / 2 ^ 66)) \<and>
   (Math_abs (js_sub (lat r) (lat cur)) = COORDINATE_TOLERANCE \<longrightarrow>
      (hasMoved (Some r) cur \<longleftrightarrow> js_gt (Math_abs (js_sub (lng r) (lng cur))) COORDINATE_TOLERANCE)) \<and>
   (Math_abs (js_sub (lng r) (lng cur)) = COORDINATE_TOLERANCE \<longrightarrow>
      (hasMoved (Some r) cur \<longleftrightarrow> js_gt (Math_abs (js_sub (lat r) (lat cur))) COORDINATE_TOLERANCE)) \<and>
   (lat r = lat cur \<and> lng r = lng cur \<longrightarrow> \<not> hasMoved (Some r) cur)"
proof -
  have tol: "COORDINATE_TOLERANCE = Fin (7378697629483821 / 2 ^ 66)"
    by (simp add: COORDINATE_TOLERANCE_value)
  have irrefl: "\<not> js_gt COORDINATE_TOLERANCE COORDINATE_TOLERANCE"
    by (simp add: COORDINATE_TOLERANCE_value)
  have fin: "lat r = Fin a \<and> lat cur = Fin b \<and> lng r = Fin c \<and> lng cur = Fin d \<and>
    to_double (a - b) = Fin u \<and> to_double (c - d) = Fin v \<longrightarrow>
      (hasMoved (Some r) cur \<longleftrightarrow>
         \<bar>u\<bar> > 7378697629483821 / 2 ^ 66 \<or> \<bar>v\<bar> > 7378697629483821 / 2 ^ 66)"
    by (simp add: hasMoved_def tol)
  have same: "lat r = lat cur \<and> lng r = lng cur \<longrightarrow> \<not> hasMoved (Some r) cur"
    by (simp add: hasMoved_def js_gt_self)
  show ?thesis
    using tol irrefl fin same by (simp add: hasMoved_def)
qed

theorem hasMoved_rule_witness:
  "(lat doc_delhi = lat cur_delhi \<and> lng doc_delhi = lng cur_delhi) \<and>
   \<not> hasMoved (Some doc_delhi) cur_delhi \<and>
   Math_abs (js_sub (lat doc_origin) (lat cur_tolerance)) = COORDINATE_TOLERANCE \<and>
   \<not> hasMoved (Some doc_origin) cur_tolerance \<and>
   (parseFloat ''77.2001'' = lng cur_delhi_east \<and> parseFloat ''77.20'' = lng doc_delhi) \<and>
   hasMoved (Some doc_delhi) cur_delhi_east \<and>
   (lat doc_far = Fin 19 \<and> lat cur_delhi = Fin (2013249770922967 / 70368744177664) \<and>
    lng doc_far = Fin 73 \<and> lng cur_delhi = Fin (5432467050515661 / 70368744177664) \<and>
    to_double (19 - 2013249770922967 / 70368744177664) = Fin (- (676243631547351 / 70368744177664)) \<and>
    to_double (73 - 5432467050515661 / 70368744177664) = Fin (- (295548725546189 / 70368744177664))) \<and>
   hasMoved (Some doc_far) cur_delhi"
proof -
  have same: "lat doc_delhi = lat cur_delhi \<and> lng doc_delhi = lng cur_delhi"
    by (simp add: doc_delhi_def new_document_def)
  have far: "lat doc_far = Fin 19 \<and> lat cur_delhi = Fin (2013249770922967 / 70368744177664) \<and>
    lng doc_far = Fin 73 \<and> lng cur_delhi = Fin (5432467050515661 / 70368744177664) \<and>
    to_double (19 - 2013249770922967 / 70368744177664) = Fin (- (676243631547351 / 70368744177664)) \<and>
    to_double (73 - 5432467050515661 / 70368744177664) = Fin (- (295548725546189 / 70368744177664))"
    by (simp add: doc_far_def cur_delhi_def double_defs)
  have "\<not> hasMoved (Some doc_delhi) cur_delhi"
    using hasMoved_rule [where r = doc_delhi and cur = cur_delhi] same by blast
  moreover have "\<not> hasMoved (Some doc_origin) cur_tolerance"
    using hasMoved_rule [where r = doc_origin and cur = cur_tolerance] delta_tolerance
    by (simp add: COORDINATE_TOLERANCE_value)
  moreover have "hasMoved (Some doc_delhi) cur_delhi_east"
    using hasMoved_rule [where r = doc_delhi and cur = cur_delhi_east] hasMoved_east by blast
  moreover have "hasMoved (Some doc_far) cur_delhi"
  proof -
    have "hasMoved (Some doc_far) cur_delhi \<longleftrightarrow>
        \<bar>- (676243631547351 / 70368744177664) :: real\<bar> > 7378697629483821 / 2 ^ 66 \<or>
        \<bar>- (295548725546189 / 70368744177664) :: real\<bar> > 7378697629483821 / 2 ^ 66"
      using hasMoved_rule [where r = doc_far and cur = cur_delhi and a = 19
          and b = "2013249770922967 / 70368744177664" and c = 73
          and d = "5432467050515661 / 70368744177664"
          and u = "- (676243631547351 / 70368744177664)"
          and v = "- (295548725546189 / 70368744177664)"] far
      by blast
    then show ?thesis by simp
  qed
  ultimately show ?thesis using same far delta_tolerance parseFloat_east by blast
qed

subsection \<open>Completeness of the snapshot\<close>

text \<open>
  Claim C1, evaluated on the call that contradicts it: the store holds nothing for the
  locomotive, a movement is detected, and the insert fails. The handler answers with a
  snapshot whose history is empty, although line 125 means to add the current position when
  there is no history.
\<close>

theorem empty_store_failed_insert_returns_empty_history:
  "POST env_insert_fails [] =
     (PayloadJson \<lparr> current = cur_delhi, history = [] \<rparr>, [],
      [Fetch (apiUrl ''37875''), DbConnect, DbFind ''37875'',
       DbCreate (new_document ''37875'' cur_delhi 5)])"
  by (simp add: POST_listed[OF listed_fail_empty] lastRecord_def hasMoved_def finalHistory_def
        env_insert_fails_fields)

text \<open>
  Claim C10. When the listed history is empty, a movement is detected, so the answer's
  history holds the current position exactly when the insert succeeded and is empty
  otherwise. The guard of line 125, no movement and an empty history, holds for no history
  and no current data.
\<close>

theorem empty_history_is_movement:
  "listed env db = Some (loco, cur, []) \<Longrightarrow>
     hasMoved (lastRecord []) cur \<and>
     (\<exists>payload. fst (POST env db) = PayloadJson payload \<and>
        history payload = (if create_error env = None then [current_entry cur (now env)] else [])) \<and>
     (\<forall>hs c. \<not> (\<not> hasMoved (lastRecord hs) c \<and> length (map history_entry hs) = 0))"
proof -
  assume l: "listed env db = Some (loco, cur, [])"
  have m: "hasMoved (lastRecord []) cur"
    by (simp add: lastRecord_def hasMoved_def)
  have p: "\<exists>payload. fst (POST env db) = PayloadJson payload \<and>
        history payload = (if create_error env = None then [current_entry cur (now env)] else [])"
    using m by (simp add: POST_listed[OF l] finalHistory_def)
  have u: "\<forall>hs c. \<not> (\<not> hasMoved (lastRecord hs) c \<and> length (map history_entry hs) = 0)"
    by (simp add: lastRecord_def hasMoved_def)
  from m p u show ?thesis by blast
qed

theorem empty_history_is_movement_witness:
  "listed env_insert_fails [] = Some (''37875'', cur_delhi, []) \<and>
   hasMoved (lastRecord []) cur_delhi \<and>
   (\<exists>payload. fst (POST env_insert_fails []) = PayloadJson payload \<and> history payload = [])"
  using empty_history_is_movement [OF listed_fail_empty] listed_fail_empty
  by (simp add: env_insert_fails_fields)

subsection \<open>A failed insert\<close>

text \<open>
  Claim C2 as stated fails: with a stored record far from the current position and an insert
  that throws, the answer is a snapshot, but its history is the stored history alone.
\<close>

theorem failed_insert_omits_current_point:
  "listed env_insert_fails [doc_far] = Some (''37875'', cur_delhi, [doc_far]) \<and>
   hasMoved (lastRecord [doc_far]) cur_delhi \<and>
   create_error env_insert_fails = Some (Error ''store unavailable'') \<and>
   fst (POST env_insert_fails [doc_far]) =
     PayloadJson \<lparr> current = cur_delhi, history = [history_entry doc_far] \<rparr> \<and>
   [history_entry doc_far] \<noteq> map history_entry [doc_far] @ [current_entry cur_delhi 5]"
proof -
  have l: "listed env_insert_fails [doc_far] = Some (''37875'', cur_delhi, [doc_far])"
    by (simp add: listed_delhi env_insert_fails_fields find_sorted_single locoId_docs)
  have m: "hasMoved (lastRecord [doc_far]) cur_delhi"
    using lastRecord_snoc[of "[]" doc_far] hasMoved_far by simp
  show ?thesis
    using l m by (simp add: POST_listed[OF l] finalHistory_def env_insert_fails_fields)
qed

text \<open>
  Claim C2, amended. When a movement is detected against a stored history that is not empty
  and the insert throws, the handler still answers with a snapshot, status 200: its current
  data is the current position, its history is the stored history without the current
  position, and the store is unchanged.
\<close>

theorem failed_insert_still_answers:
  "listed env db = Some (loco, cur, hs) \<Longrightarrow> hs \<noteq> [] \<Longrightarrow> hasMoved (lastRecord hs) cur \<Longrightarrow>
   create_error env = Some e \<Longrightarrow>
     fst (POST env db) = PayloadJson \<lparr> current = cur, history = map history_entry hs \<rparr> \<and>
     status_of (fst (POST env db)) = 200 \<and>
     fst (snd (POST env db)) = db"
  by (simp add: POST_listed finalHistory_def)

theorem failed_insert_still_answers_witness:
  "listed env_insert_fails [doc_far] = Some (''37875'', cur_delhi, [doc_far]) \<and>
   [doc_far] \<noteq> [] \<and> hasMoved (lastRecord [doc_far]) cur_delhi \<and>
   create_error env_insert_fails = Some (Error ''store unavailable'') \<and>
   fst (POST env_insert_fails [doc_far]) =
     PayloadJson \<lparr> current = cur_delhi, history = map history_entry [doc_far] \<rparr> \<and>
   status_of (fst (POST env_insert_fails [doc_far])) = 200 \<and>
   fst (snd (POST env_insert_fails [doc_far])) = [doc_far]"
proof -
  have l: "listed env_insert_fails [doc_far] = Some (''37875'', cur_delhi, [doc_far])"
    by (simp add: listed_delhi env_insert_fails_fields find_sorted_single locoId_docs)
  have m: "hasMoved (lastRecord [doc_far]) cur_delhi"
    using lastRecord_snoc[of "[]" doc_far] hasMoved_far by simp
  have c: "create_error env_insert_fails = Some (Error ''store unavailable'')"
    by (simp add: env_insert_fails_fields)
  show ?thesis
    using failed_insert_still_answers [OF l _ m c] l m c by simp
qed

subsection \<open>No movement\<close>

text \<open>
  Claim C6 as stated fails: when the locomotive stands where its last record was taken, the
  last element of the answer's history has the coordinates of the current position.
\<close>

theorem unmoved_last_entry_holds_current_position:
  "listed env_ok [doc_delhi] = Some (''37875'', cur_delhi, [doc_delhi]) \<and>
   \<not> hasMoved (lastRecord [doc_delhi]) cur_delhi \<and>
   fst (POST env_ok [doc_delhi]) =
     PayloadJson \<lparr> current = cur_delhi, history = [history_entry doc_delhi] \<rparr> \<and>
   lat (last [history_entry doc_delhi]) = lat cur_delhi \<and>
   lng (last [history_entry doc_delhi]) = lng cur_delhi"
proof -
  have l: "listed env_ok [doc_delhi] = Some (''37875'', cur_delhi, [doc_delhi])"
    by (simp add: listed_delhi env_ok_fields find_sorted_single locoId_docs)
  have m: "\<not> hasMoved (lastRecord [doc_delhi]) cur_delhi"
    using lastRecord_snoc[of "[]" doc_delhi] hasMoved_new_document[of "''37875''" cur_delhi 1]
    by (simp add: doc_delhi_def)
  have p: "lat (history_entry doc_delhi) = lat cur_delhi \<and> lng (history_entry doc_delhi) = lng cur_delhi"
    by (simp add: history_entry_def doc_delhi_def new_document_def)
  show ?thesis
    using l m p by (simp add: POST_listed[OF l] finalHistory_def)
qed

text \<open>
  Claim C6, amended. When the listed history is not empty and no movement is detected, the
  answer's history is the stored history alone, of the same length; its last element is the
  last stored record, and neither of its coordinates differs from the current position by
  more than the tolerance (it may be the current position). The store is unchanged.
\<close>

theorem unmoved_history_is_stored_trail:
  "listed env db = Some (loco, cur, hs) \<Longrightarrow> hs \<noteq> [] \<Longrightarrow> \<not> hasMoved (lastRecord hs) cur \<Longrightarrow>
     fst (POST env db) = PayloadJson \<lparr> current = cur, history = map history_entry hs \<rparr> \<and>
     length (map history_entry hs) = length hs \<and>
     last (map history_entry hs) = history_entry (last hs) \<and>
     \<not> js_gt (Math_abs (js_sub (lat (last (map history_entry hs))) (lat cur))) COORDINATE_TOLERANCE \<and>
     \<not> js_gt (Math_abs (js_sub (lng (last (map history_entry hs))) (lng cur))) COORDINATE_TOLERANCE \<and>
     fst (snd (POST env db)) = db"
proof -
  assume l: "listed env db = Some (loco, cur, hs)" and ne: "hs \<noteq> []"
    and m: "\<not> hasMoved (lastRecord hs) cur"
  have e: "last (map history_entry hs) = history_entry (last hs)"
    using ne by (simp add: last_map)
  have "\<not> hasMoved (Some (last hs)) cur"
    using m ne by (simp add: lastRecord_last)
  then have t: "\<not> js_gt (Math_abs (js_sub (lat (last hs)) (lat cur))) COORDINATE_TOLERANCE \<and>
      \<not> js_gt (Math_abs (js_sub (lng (last hs)) (lng cur))) COORDINATE_TOLERANCE"
    by (simp add: hasMoved_def)
  have c: "lat (history_entry (last hs)) = lat (last hs) \<and> lng (history_entry (last hs)) = lng (last hs)"
    by (simp add: history_entry_def)
  show ?thesis
    using m ne e t c by (simp add: POST_listed[OF l] finalHistory_def)
qed

theorem unmoved_history_is_stored_trail_witness:
  "listed env_ok [doc_edge] = Some (''37875'', cur_delhi, [doc_edge]) \<and> [doc_edge] \<noteq> [] \<and>
   \<not> hasMoved (lastRecord [doc_edge]) cur_delhi \<and>
   fst (POST env_ok [doc_edge]) =
     PayloadJson \<lparr> current = cur_delhi, history = map history_entry [doc_edge] \<rparr> \<and>
   fst (snd (POST env_ok [doc_edge])) = [doc_edge]"
proof -
  have l: "listed env_ok [doc_edge] = Some (''37875'', cur_delhi, [doc_edge])"
    by (simp add: listed_delhi env_ok_fields find_sorted_single locoId_docs)
  have m: "\<not> hasMoved (lastRecord [doc_edge]) cur_delhi"
    using lastRecord_snoc[of "[]" doc_edge] hasMoved_edge by simp
  show ?thesis
    using unmoved_history_is_stored_trail [OF l _ m] l m by simp
qed


subsection \<open>Two calls with the same telemetry\<close>

text \<open>
  Claim C7 as stated fails: the first call detects a movement and its insert throws, the
  second call receives the same request and telemetry half a minute later and its insert
  succeeds, so the stored history grows in the second call.
\<close>

theorem failed_insert_is_retried:
  "request_json env_retry = request_json env_insert_fails \<and>
   fetch env_retry = fetch env_insert_fails \<and>
   fst (snd (POST env_insert_fails [doc_far])) = [doc_far] \<and>
   fst (snd (POST env_retry [doc_far])) = [doc_far, new_document ''37875'' cur_delhi 35] \<and>
   length (fst (snd (POST env_retry (fst (snd (POST env_insert_fails [doc_far])))))) >
   length (fst (snd (POST env_insert_fails [doc_far])))"
proof -
  have l1: "listed env_insert_fails [doc_far] = Some (''37875'', cur_delhi, [doc_far])"
    by (simp add: listed_delhi env_insert_fails_fields find_sorted_single locoId_docs)
  have l2: "listed env_retry [doc_far] = Some (''37875'', cur_delhi, [doc_far])"
    by (simp add: listed_delhi env_retry_fields find_sorted_single locoId_docs)
  have m: "hasMoved (lastRecord [doc_far]) cur_delhi"
    using lastRecord_snoc[of "[]" doc_far] hasMoved_far by simp
  have s1: "fst (snd (POST env_insert_fails [doc_far])) = [doc_far]"
    using m by (simp add: POST_listed[OF l1] env_insert_fails_fields)
  have s2: "fst (snd (POST env_retry [doc_far])) = [doc_far, new_document ''37875'' cur_delhi 35]"
    using m by (simp add: POST_listed[OF l2] env_retry_fields)
  show ?thesis using s1 s2 by (simp add: env_retry_fields env_insert_fails_fields)
qed

text \<open>
  Claim C7, amended. When the store does not fail in the first call and no stored document
  was created after the clock of that call, a second call with the same request and the same
  telemetry leaves the store as the first call left it. Every call makes the store at most
  one document longer and attempts at most one insert.
\<close>

theorem identical_telemetry_is_stored_once:
  "(dbConnect env1 = None \<and> find_error env1 = None \<and> create_error env1 = None \<and>
    (\<forall>r\<in>set db. createdAt r \<le> Some (now env1)) \<and>
    request_json env2 = request_json env1 \<and> fetch env2 = fetch env1 \<longrightarrow>
      fst (snd (POST env2 (fst (snd (POST env1 db))))) = fst (snd (POST env1 db))) \<and>
   length (fst (snd (POST env1 db))) \<le> length db + 1 \<and>
   length (filter is_DbCreate (snd (snd (POST env1 db)))) \<le> 1"
proof -
  have a: "length (fst (snd (POST env1 db))) \<le> length db + 1"
    using POST_store[of env1 db] by auto
  have b: "fst (snd (POST env2 (fst (snd (POST env1 db))))) = fst (snd (POST env1 db))"
    if h: "dbConnect env1 = None" "find_error env1 = None" "create_error env1 = None"
      "\<forall>r\<in>set db. createdAt r \<le> Some (now env1)"
      "request_json env2 = request_json env1" "fetch env2 = fetch env1"
  proof (cases "listed env1 db")
    case None
    then have db1: "fst (snd (POST env1 db)) = db" by (rule POST_not_listed)
    have "listed env2 db = None"
      using None h(1,2,5) fetch_current_cong[OF h(6)]
      by (auto simp: listed_def split: sum.splits option.splits if_splits)
    then show ?thesis unfolding db1 by (rule POST_not_listed)
  next
    case (Some t)
    obtain loco cur hs where "t = (loco, cur, hs)" by (cases t)
    then have l: "listed env1 db = Some (loco, cur, hs)" using Some by simp
    show ?thesis using second_call_unchanged[OF l _ h(4) h(5) h(6)] h(3) by simp
  qed
  show ?thesis using a b POST_effects_create by blast
qed

theorem identical_telemetry_is_stored_once_witness:
  "(dbConnect env_ok = None \<and> find_error env_ok = None \<and> create_error env_ok = None \<and>
    createdAt doc_far \<le> Some (now env_ok) \<and>
    request_json env_retry = request_json env_ok \<and> fetch env_retry = fetch env_ok) \<and>
   fst (snd (POST env_ok [doc_far])) = [doc_far, new_document ''37875'' cur_delhi 5] \<and>
   fst (snd (POST env_retry (fst (snd (POST env_ok [doc_far]))))) =
     [doc_far, new_document ''37875'' cur_delhi 5]"
proof -
  have h: "dbConnect env_ok = None \<and> find_error env_ok = None \<and> create_error env_ok = None \<and>
    createdAt doc_far \<le> Some (now env_ok) \<and>
    request_json env_retry = request_json env_ok \<and> fetch env_retry = fetch env_ok"
    by (simp add: env_ok_fields env_retry_fields doc_far_def)
  have l: "listed env_ok [doc_far] = Some (''37875'', cur_delhi, [doc_far])"
    by (simp add: listed_delhi env_ok_fields find_sorted_single locoId_docs)
  have m: "hasMoved (lastRecord [doc_far]) cur_delhi"
    using lastRecord_snoc[of "[]" doc_far] hasMoved_far by simp
  have s: "fst (snd (POST env_ok [doc_far])) = [doc_far, new_document ''37875'' cur_delhi 5]"
    using m by (simp add: POST_listed[OF l] env_ok_fields)
  show ?thesis
    using identical_telemetry_is_stored_once [of env_ok "[doc_far]" env_retry] h s by simp
qed

subsection \<open>Statuses\<close>

text \<open>
  Claim C8. A missing or empty locomotive id gives status 400. When the telemetry source
  reports zero rows (the row count is the string 0, or there are no detail rows) the status
  is 404, the store is unchanged and the fetch is the only operation attempted. A failure
  of the telemetry source (fetch throws, the response is not ok, its body does not parse)
  and an internal failure (the request body does not parse, the payload has no first row or
  no annotation, the store cannot be connected to or listed) give status 500. A call that
  returns none of these lists the history and answers with a snapshot.
\<close>

theorem POST_status:
  "(request_json env = Inr None \<or> request_json env = Inr (Some []) \<longrightarrow>
      status_of (fst (POST env db)) = 400) \<and>
   (request_json env = Inr (Some loco) \<and> loco \<noteq> [] \<and> fetch env (apiUrl loco) = Inr resp \<and>
    ok resp \<and> json resp = Inr d \<and> (RowCont d = Some ''0'' \<or> LocoDtls d = None) \<longrightarrow>
      status_of (fst (POST env db)) = 404 \<and> fst (snd (POST env db)) = db \<and>
      snd (snd (POST env db)) = [Fetch (apiUrl loco)]) \<and>
   (request_json env = Inr (Some loco) \<and> loco \<noteq> [] \<and>
    (fetch env (apiUrl loco) = Inl e \<or>
     fetch env (apiUrl loco) = Inr resp \<and> (\<not> ok resp \<or> json resp = Inl e)) \<longrightarrow>
      status_of (fst (POST env db)) = 500) \<and>
   (request_json env = Inl e \<longrightarrow> status_of (fst (POST env db)) = 500) \<and>
   (request_json env = Inr (Some loco) \<and> loco \<noteq> [] \<and> fetch env (apiUrl loco) = Inr resp \<and>
    ok resp \<and> json resp = Inr d \<and> RowCont d \<noteq> Some ''0'' \<and> LocoDtls d = Some rows \<and>
    currentData rows = Inl e \<longrightarrow>
      status_of (fst (POST env db)) = 500) \<and>
   (request_json env = Inr (Some loco) \<and> loco \<noteq> [] \<and> fetch_current env loco = Inr cur \<and>
    (dbConnect env = Some e \<or> find_error env = Some e) \<longrightarrow>
      status_of (fst (POST env db)) = 500) \<and>
   (listed env db = None \<longrightarrow> status_of (fst (POST env db)) \<in> {400, 404, 500}) \<and>
   (listed env db \<noteq> None \<longrightarrow> (\<exists>payload. fst (POST env db) = PayloadJson payload))"
proof -
  have c400: "request_json env = Inr None \<or> request_json env = Inr (Some []) \<longrightarrow>
      status_of (fst (POST env db)) = 400"
    by (auto simp: POST_def)
  have c404: "request_json env = Inr (Some loco) \<and> loco \<noteq> [] \<and> fetch env (apiUrl loco) = Inr resp \<and>
    ok resp \<and> json resp = Inr d \<and> (RowCont d = Some ''0'' \<or> LocoDtls d = None) \<longrightarrow>
      status_of (fst (POST env db)) = 404 \<and> fst (snd (POST env db)) = db \<and>
      snd (snd (POST env db)) = [Fetch (apiUrl loco)]"
    by (auto simp: POST_def fetch_current_def split: option.splits)
  have ctel: "request_json env = Inr (Some loco) \<and> loco \<noteq> [] \<and>
    (fetch env (apiUrl loco) = Inl e \<or>
     fetch env (apiUrl loco) = Inr resp \<and> (\<not> ok resp \<or> json resp = Inl e)) \<longrightarrow>
      status_of (fst (POST env db)) = 500"
    by (auto simp: POST_def fetch_current_def catch_error_def)
  have cbody: "request_json env = Inl e \<longrightarrow> status_of (fst (POST env db)) = 500"
    by (auto simp: POST_def catch_error_def)
  have cshape: "request_json env = Inr (Some loco) \<and> loco \<noteq> [] \<and> fetch env (apiUrl loco) = Inr resp \<and>
    ok resp \<and> json resp = Inr d \<and> RowCont d \<noteq> Some ''0'' \<and> LocoDtls d = Some rows \<and>
    currentData rows = Inl e \<longrightarrow>
      status_of (fst (POST env db)) = 500"
    by (auto simp: POST_def fetch_current_def catch_error_def)
  have cdb: "request_json env = Inr (Some loco) \<and> loco \<noteq> [] \<and> fetch_current env loco = Inr cur \<and>
    (dbConnect env = Some e \<or> find_error env = Some e) \<longrightarrow>
      status_of (fst (POST env db)) = 500"
    by (auto simp: POST_def reconcile_def catch_error_def split: option.splits)
  have cnone: "listed env db = None \<longrightarrow> status_of (fst (POST env db)) \<in> {400, 404, 500}"
    using POST_listed_None_status by blast
  have csome: "listed env db \<noteq> None \<longrightarrow> (\<exists>payload. fst (POST env db) = PayloadJson payload)"
  proof
    assume "listed env db \<noteq> None"
    then obtain l c h where "listed env db = Some (l, c, h)" by (cases "listed env db") auto
    then show "\<exists>payload. fst (POST env db) = PayloadJson payload"
      by (simp add: POST_listed)
  qed
  show ?thesis using c400 c404 ctel cbody cshape cdb cnone csome by (intro conjI)
qed

theorem POST_status_witness:
  "request_json env_no_id = Inr None \<and> status_of (fst (POST env_no_id [doc_far])) = 400 \<and>
   status_of (fst (POST env_zero_rows [doc_far])) = 404 \<and>
   fst (snd (POST env_zero_rows [doc_far])) = [doc_far] \<and>
   snd (snd (POST env_zero_rows [doc_far])) = [Fetch (apiUrl ''37875'')] \<and>
   status_of (fst (POST env_fois_down [doc_far])) = 500 \<and>
   status_of (fst (POST env_db_down [doc_far])) = 500 \<and>
   listed env_ok [doc_far] \<noteq> None \<and>
   (\<exists>payload. fst (POST env_ok [doc_far]) = PayloadJson payload)"
proof -
  have a: "status_of (fst (POST env_no_id [doc_far])) = 400"
    using POST_status [where env = env_no_id and db = "[doc_far]"] env_no_id_fields by blast
  have z: "request_json env_zero_rows = Inr (Some ''37875'') \<and> ''37875'' \<noteq> [] \<and>
      fetch env_zero_rows (apiUrl ''37875'') = Inr \<lparr> ok = True, status = 200,
        json = Inr \<lparr> RowCont = Some ''0'', LocoDtls = Some [] \<rparr> \<rparr> \<and>
      ok \<lparr> ok = True, status = 200, json = Inr \<lparr> RowCont = Some ''0'', LocoDtls = Some [] \<rparr> \<rparr> \<and>
      json \<lparr> ok = True, status = 200, json = Inr \<lparr> RowCont = Some ''0'', LocoDtls = Some [] \<rparr> \<rparr> =
        Inr \<lparr> RowCont = Some ''0'', LocoDtls = Some [] \<rparr> \<and>
      RowCont \<lparr> RowCont = Some ''0'', LocoDtls = Some ([] :: FoisRow list) \<rparr> = Some ''0''"
    by (simp add: env_zero_rows_fields fois_zero_rows_def)
  have b: "status_of (fst (POST env_zero_rows [doc_far])) = 404 \<and>
      fst (snd (POST env_zero_rows [doc_far])) = [doc_far] \<and>
      snd (snd (POST env_zero_rows [doc_far])) = [Fetch (apiUrl ''37875'')]"
    using POST_status [where env = env_zero_rows and loco = "''37875''" and db = "[doc_far]"
        and d = "\<lparr> RowCont = Some ''0'', LocoDtls = Some [] \<rparr>"] z
    by blast
  have f: "request_json env_fois_down = Inr (Some ''37875'') \<and> ''37875'' \<noteq> [] \<and>
      fetch env_fois_down (apiUrl ''37875'') =
        Inr \<lparr> ok = False, status = 503, json = Inl (Error ''Unexpected token'') \<rparr> \<and>
      \<not> ok \<lparr> ok = False, status = 503, json = Inl (Error ''Unexpected token'') :: exn + FoisData \<rparr>"
    by (simp add: env_fois_down_fields fois_down_def)
  have c: "status_of (fst (POST env_fois_down [doc_far])) = 500"
    using POST_status [where env = env_fois_down and loco = "''37875''" and db = "[doc_far]"] f by blast
  have g: "request_json env_db_down = Inr (Some ''37875'') \<and> ''37875'' \<noteq> [] \<and>
      fetch_current env_db_down ''37875'' = Inr cur_delhi \<and>
      dbConnect env_db_down = Some (Error ''connection refused'')"
    by (simp add: env_db_down_fields fetch_current_delhi)
  have d: "status_of (fst (POST env_db_down [doc_far])) = 500"
    using POST_status [where env = env_db_down and loco = "''37875''" and db = "[doc_far]"] g by blast
  have l: "listed env_ok [doc_far] \<noteq> None"
    by (simp add: listed_delhi env_ok_fields)
  have p: "\<exists>payload. fst (POST env_ok [doc_far]) = PayloadJson payload"
    using POST_status [where env = env_ok and db = "[doc_far]"] l by blast
  show ?thesis using a b c d l p env_no_id_fields by blast
qed

subsection \<open>Coordinates that are absent or not numeric\<close>

text \<open>
  Claim C3 as stated fails: a latitude that is not a number and a longitude that is absent
  are read as \<open>NaN\<close>, the parse step yields a position record, and the handler answers
  with a snapshot whose current position is that record.
\<close>

theorem malformed_coordinates_yield_a_snapshot:
  "Lttd row_malformed = Some ''abc'' \<and> Lgtd row_malformed = None \<and>
   currentData [row_malformed] = Inr cur_nan \<and> lat cur_nan = NaN \<and> lng cur_nan = NaN \<and>
   POST env_malformed [doc_far] =
     (PayloadJson \<lparr> current = cur_nan, history = [history_entry doc_far] \<rparr>,
      [doc_far],
      [Fetch (apiUrl ''37875''), DbConnect, DbFind ''37875''])"
proof -
  have f: "request_json env_malformed = Inr (Some ''37875'')" "fetch env_malformed = fois_malformed"
    "dbConnect env_malformed = None" "find_error env_malformed = None"
    "create_error env_malformed = None" "now env_malformed = 5"
    by (simp_all add: env_malformed_def env_ok_def)
  have c: "fetch_current env_malformed ''37875'' = Inr cur_nan"
    by (simp add: fetch_current_def f fois_malformed_def currentData_malformed)
  have l: "listed env_malformed [doc_far] = Some (''37875'', cur_nan, [doc_far])"
    by (simp add: listed_def f c find_sorted_single locoId_docs)
  have m: "\<not> hasMoved (lastRecord [doc_far]) cur_nan"
    using lastRecord_snoc[of "[]" doc_far]
    by (simp add: hasMoved_def cur_nan_def doc_far_def COORDINATE_TOLERANCE_value)
  show ?thesis
    using m by (simp add: POST_listed[OF l] finalHistory_def f currentData_malformed)
      (simp add: row_malformed_def cur_nan_def)
qed

text \<open>
  Claim C3, amended. For a payload whose first detail row has an annotation string, the
  parse step does not fail on account of the coordinate fields: it yields a position record
  whose coordinates are what \<open>parseFloat\<close> reads from the fields, which is \<open>NaN\<close> for a field
  that is absent and for a text that \<open>parseFloat\<close> cannot read.
\<close>

theorem coordinates_never_fail_the_parse:
  "PopUpMsg row = Some html \<Longrightarrow>
     (\<exists>cur. currentData (row # rows) = Inr cur \<and>
        lat cur = parseFloat_field (Lttd row) \<and> lng cur = parseFloat_field (Lgtd row) \<and>
        (Lttd row = None \<longrightarrow> lat cur = NaN) \<and> (Lgtd row = None \<longrightarrow> lng cur = NaN) \<and>
        (\<forall>s. Lttd row = Some s \<and> parseFloat s = NaN \<longrightarrow> lat cur = NaN) \<and>
        (\<forall>s. Lgtd row = Some s \<and> parseFloat s = NaN \<longrightarrow> lng cur = NaN))"
  using parseFloat_undefined
  by (auto simp: currentData_def Let_def parseFloat_field_def)

theorem coordinates_never_fail_the_parse_witness:
  "PopUpMsg row_malformed = Some ''<p>Station: <b>NDLS</b></p>'' \<and>
   Lttd row_malformed = Some ''abc'' \<and> parseFloat ''abc'' = NaN \<and> Lgtd row_malformed = None \<and>
   (\<exists>cur. currentData (row_malformed # []) = Inr cur \<and> lat cur = NaN \<and> lng cur = NaN)"
proof -
  have h: "PopUpMsg row_malformed = Some ''<p>Station: <b>NDLS</b></p>''"
    by (simp add: row_malformed_def)
  have a: "Lttd row_malformed = Some ''abc'' \<and> parseFloat ''abc'' = NaN \<and> Lgtd row_malformed = None"
    by (simp add: row_malformed_def parse_defs)
  show ?thesis
    using coordinates_never_fail_the_parse [OF h, of "[]"] h a by auto
qed


subsection \<open>The annotation parser\<close>

text \<open>
  Claim C9. For every annotation string, each of station, event and speed is decided by its
  own label alone. When the annotation holds a sub-field under the label, the parser's value
  is the sub-field extracted there, the first match of the pattern, and it is the only such
  value; when the annotation holds none, the value is the sentinel N/A. The parser is a
  total function of the string, and the handler's parse step does not fail when the
  annotation is a string.
\<close>

theorem parsePopupMsg_fields:
  "((\<exists>g. occurs_labelled ''Station: <b>'' html g) \<longrightarrow>
      extracted ''Station: <b>'' html (station (parsePopupMsg html))) \<and>
   (\<forall>g. extracted ''Station: <b>'' html g \<longrightarrow> station (parsePopupMsg html) = g) \<and>
   ((\<forall>g. \<not> occurs_labelled ''Station: <b>'' html g) \<longrightarrow> station (parsePopupMsg html) = ''N/A'') \<and>
   ((\<exists>g. occurs_labelled ''Event: <b>'' html g) \<longrightarrow>
      extracted ''Event: <b>'' html (event (parsePopupMsg html))) \<and>
   (\<forall>g. extracted ''Event: <b>'' html g \<longrightarrow> event (parsePopupMsg html) = g) \<and>
   ((\<forall>g. \<not> occurs_labelled ''Event: <b>'' html g) \<longrightarrow> event (parsePopupMsg html) = ''N/A'') \<and>
   ((\<exists>g. occurs_labelled ''Speed: <b>'' html g) \<longrightarrow>
      extracted ''Speed: <b>'' html (speed (parsePopupMsg html))) \<and>
   (\<forall>g. extracted ''Speed: <b>'' html g \<longrightarrow> speed (parsePopupMsg html) = g) \<and>
   ((\<forall>g. \<not> occurs_labelled ''Speed: <b>'' html g) \<longrightarrow> speed (parsePopupMsg html) = ''N/A'') \<and>
   (PopUpMsg row = Some html \<longrightarrow>
      (\<exists>cur. currentData (row # rows) = Inr cur \<and> station cur = station (parsePopupMsg html) \<and>
         event cur = event (parsePopupMsg html) \<and> speed cur = speed (parsePopupMsg html)))"
proof -
  have st: "station (parsePopupMsg html) =
      (case match_label ''Station: <b>'' html of Some g \<Rightarrow> g | None \<Rightarrow> ''N/A'')"
    and ev: "event (parsePopupMsg html) =
      (case match_label ''Event: <b>'' html of Some g \<Rightarrow> g | None \<Rightarrow> ''N/A'')"
    and sp: "speed (parsePopupMsg html) =
      (case match_label ''Speed: <b>'' html of Some g \<Rightarrow> g | None \<Rightarrow> ''N/A'')"
    by (simp_all add: parsePopupMsg_def Let_def)
  have total: "PopUpMsg row = Some html \<longrightarrow>
      (\<exists>cur. currentData (row # rows) = Inr cur \<and> station cur = station (parsePopupMsg html) \<and>
         event cur = event (parsePopupMsg html) \<and> speed cur = speed (parsePopupMsg html))"
    by (simp add: currentData_def Let_def)
  show ?thesis
    using match_label_field[OF st] match_label_field[OF ev] match_label_field[OF sp] total
    apply (elim conjE)
    apply (intro conjI)
    apply assumption+
    done
qed

theorem parsePopupMsg_fields_witness:
  "occurs_labelled ''Station: <b>'' html_delhi ''NDLS'' \<and>
   occurs_labelled ''Station: <b>'' html_delhi ''NDLS</b><br>Event: <b>Arrived'' \<and>
   extracted ''Station: <b>'' html_delhi ''NDLS'' \<and>
   \<not> extracted ''Station: <b>'' html_delhi ''NDLS</b><br>Event: <b>Arrived'' \<and>
   parsePopupMsg html_delhi = \<lparr> station = ''NDLS'', event = ''Arrived'', speed = ''N/A'' \<rparr> \<and>
   PopUpMsg row_delhi = Some html_delhi \<and>
   (\<exists>cur. currentData [row_delhi] = Inr cur \<and> station cur = ''NDLS'' \<and>
      event cur = ''Arrived'' \<and> speed cur = ''N/A'')"
proof -
  have "html_delhi = [] @ ''Station: <b>'' @ ''NDLS'' @ ''</b>'' @ ''<br>Event: <b>Arrived</b>''"
    by (simp add: html_delhi_def)
  moreover have "\<forall>c\<in>set ''NDLS''. \<not> is_line_terminator c"
    by (simp add: is_line_terminator_def)
  ultimately have o: "occurs_labelled ''Station: <b>'' html_delhi ''NDLS''"
    unfolding occurs_labelled_def by blast
  have "html_delhi = [] @ ''Station: <b>'' @ ''NDLS</b><br>Event: <b>Arrived'' @ ''</b>'' @ []"
    by (simp add: html_delhi_def)
  moreover have "\<forall>c\<in>set ''NDLS</b><br>Event: <b>Arrived''. \<not> is_line_terminator c"
    by (simp add: is_line_terminator_def)
  ultimately have o2: "occurs_labelled ''Station: <b>'' html_delhi ''NDLS</b><br>Event: <b>Arrived''"
    unfolding occurs_labelled_def by blast
  have v: "parsePopupMsg html_delhi = \<lparr> station = ''NDLS'', event = ''Arrived'', speed = ''N/A'' \<rparr>"
    by (simp add: html_delhi_def parsePopupMsg_def starts_with_def is_line_terminator_def)
  have r: "PopUpMsg row_delhi = Some html_delhi"
    by (simp add: row_delhi_def html_delhi_def)
  note t = parsePopupMsg_fields [of html_delhi row_delhi "[]"]
  have sv: "station (parsePopupMsg html_delhi) = ''NDLS''"
    and evv: "event (parsePopupMsg html_delhi) = ''Arrived''"
    and spv: "speed (parsePopupMsg html_delhi) = ''N/A''"
    using v by simp_all
  have "extracted ''Station: <b>'' html_delhi (station (parsePopupMsg html_delhi))"
    using t o by blast
  then have e: "extracted ''Station: <b>'' html_delhi ''NDLS''"
    unfolding sv .
  have "station (parsePopupMsg html_delhi) = ''NDLS</b><br>Event: <b>Arrived''"
    if "extracted ''Station: <b>'' html_delhi ''NDLS</b><br>Event: <b>Arrived''"
    using t that by blast
  then have ne: "\<not> extracted ''Station: <b>'' html_delhi ''NDLS</b><br>Event: <b>Arrived''"
    unfolding sv by auto
  have "\<exists>cur. currentData [row_delhi] = Inr cur \<and>
      station cur = station (parsePopupMsg html_delhi) \<and>
      event cur = event (parsePopupMsg html_delhi) \<and> speed cur = speed (parsePopupMsg html_delhi)"
    using t r by blast
  then have c: "\<exists>cur. currentData [row_delhi] = Inr cur \<and> station cur = ''NDLS'' \<and>
      event cur = ''Arrived'' \<and> speed cur = ''N/A''"
    unfolding sv evv spv .
  show ?thesis
    apply (intro conjI)
    apply (rule o, rule o2, rule e, rule ne, rule v, rule r, rule c)
    done
qed

section \<open>Properties of the page\<close>

lemmas session_defs = step_def handle_def useEffect_def handleFormSubmit_def fetchData_begin_def
  fetchData_settle_def

lemma run_to_tracking:
  "run [Submit, Settle 0 (Answered (PayloadJson snapshot_delhi))] Home_initial = Home_tracking"
  by (simp add: session_defs Home_initial_def Home_tracking_def snapshot_delhi_def)

lemma list_all_remove: "list_all P xs \<Longrightarrow> list_all P (take i xs @ drop (Suc i) xs)"
  by (auto simp: list_all_iff dest: in_set_takeD in_set_dropD)

lemma stopped_step: "stopped s \<Longrightarrow> background ev \<Longrightarrow> stopped (step ev s)"
proof (cases ev)
  case (Settle i outcome)
  assume s: "stopped s"
  show ?thesis
  proof (cases "i < length (in_flight s)")
    case True
    have b: "in_flight s ! i" using s True by (simp add: stopped_def list_all_length)
    have r: "list_all (\<lambda>b. b) (take i (in_flight s) @ drop (Suc i) (in_flight s))"
      using s list_all_remove[of "\<lambda>b. b" "in_flight s" i] unfolding stopped_def by blast
    show ?thesis using s True b r Settle
      by (simp add: stopped_def session_defs split: poll_outcome.splits NextResponse.splits)
  next
    case False
    then show ?thesis using s Settle by (simp add: stopped_def session_defs)
  qed
qed (simp_all add: stopped_def session_defs)

lemma stopped_run: "stopped s \<Longrightarrow> list_all background evs \<Longrightarrow> stopped (run evs s)"
  by (induction evs arbitrary: s) (simp_all add: stopped_step)

lemma stopped_Tick: "stopped s \<Longrightarrow> step Tick s = s"
  by (simp add: stopped_def session_defs)

text \<open>
  Claim C4 as stated fails: in a session started from the initial state, a tick starts a
  poll, the user stops the session while the poll is pending, and the poll's snapshot then
  replaces the current data and the history of the stopped session.
\<close>

theorem stopped_session_takes_in_flight_result:
  "run [Submit, Settle 0 (Answered (PayloadJson snapshot_delhi))] Home_initial = Home_tracking \<and>
   run [Tick, Submit] Home_tracking =
     Home_tracking \<lparr> isTracking := False, interval := None, in_flight := [True] \<rparr> \<and>
   currentData_state (run [Tick, Submit] Home_tracking) = Some cur_delhi \<and>
   currentData_state (run [Tick, Submit, Settle 0 (Answered (PayloadJson snapshot_agra))] Home_tracking)
     = Some cur_agra \<and>
   historyData (run [Tick, Submit, Settle 0 (Answered (PayloadJson snapshot_agra))] Home_tracking)
     = [current_entry cur_delhi 5, current_entry cur_agra 35] \<and>
   cur_agra \<noteq> cur_delhi"
  using run_to_tracking
  by (simp add: session_defs Home_tracking_def snapshot_agra_def cur_agra_def cur_delhi_def)

text \<open>
  Claim C4, amended. When the user stops a session whose pending polls were all started by
  ticks, the timer is cleared: whatever ticks and outcomes of pending polls follow, the
  session stays stopped, no timer is armed, and a tick changes nothing. The outcome of a
  poll that was pending at the stop is still applied when it arrives: a snapshot replaces
  the current data and the history, a rejection or an error response sets the error message.
\<close>

theorem stop_clears_the_timer:
  assumes "isTracking s" and "\<not> isLoading s" and "list_all (\<lambda>b. b) (in_flight s)"
    and "list_all background evs"
  shows "\<not> isTracking (run evs (step Submit s)) \<and>
         interval (run evs (step Submit s)) = None \<and>
         step Tick (run evs (step Submit s)) = run evs (step Submit s) \<and>
         (\<forall>i data. i < length (in_flight s) \<longrightarrow>
            currentData_state (step (Settle i (Answered (PayloadJson data))) (step Submit s)) =
              Some (current data) \<and>
            historyData (step (Settle i (Answered (PayloadJson data))) (step Submit s)) =
              history data) \<and>
         (\<forall>i e. i < length (in_flight s) \<longrightarrow>
            error (step (Settle i (Rejected e)) (step Submit s)) = Some (message e)) \<and>
         (\<forall>i msg code. i < length (in_flight s) \<longrightarrow>
            error (step (Settle i (Answered (ErrorJson msg code))) (step Submit s)) =
              Some (if msg \<noteq> [] then msg else ''Failed to fetch data''))"
proof -
  have st: "stopped (step Submit s)"
    using assms(1-3) by (simp add: stopped_def session_defs)
  have sr: "stopped (run evs (step Submit s))"
    using st assms(4) by (rule stopped_run)
  have fl: "in_flight (step Submit s) = in_flight s" "\<not> isTracking (step Submit s)"
    using assms(1,2) by (simp_all add: session_defs)
  have ap: "currentData_state (step (Settle i (Answered (PayloadJson data))) (step Submit s)) =
              Some (current data) \<and>
            historyData (step (Settle i (Answered (PayloadJson data))) (step Submit s)) =
              history data" if "i < length (in_flight s)" for i data
  proof -
    have "in_flight s ! i" using assms(3) that by (simp add: list_all_length)
    then show ?thesis
      using that fl by (simp add: step_def handle_def fetchData_settle_def useEffect_def)
  qed
  have rj: "error (step (Settle i (Rejected e)) (step Submit s)) = Some (message e)"
    if "i < length (in_flight s)" for i e
    using that fl by (simp add: step_def handle_def fetchData_settle_def useEffect_def)
  have ej: "error (step (Settle i (Answered (ErrorJson msg code))) (step Submit s)) =
      Some (if msg \<noteq> [] then msg else ''Failed to fetch data'')"
    if "i < length (in_flight s)" for i msg code
    using that fl by (simp add: step_def handle_def fetchData_settle_def useEffect_def)
  have a: "\<not> isTracking (run evs (step Submit s))"
    and b: "interval (run evs (step Submit s)) = None"
    using sr by (simp_all add: stopped_def)
  show ?thesis
    apply (intro conjI allI impI)
    apply (rule a, rule b, rule stopped_Tick[OF sr])
    apply (simp add: ap, simp add: ap, simp add: rj, simp add: ej)
    done
qed

theorem stop_clears_the_timer_witness:
  "isTracking (step Tick Home_tracking) \<and> \<not> isLoading (step Tick Home_tracking) \<and>
   list_all (\<lambda>b. b) (in_flight (step Tick Home_tracking)) \<and>
   list_all background [Tick, Settle 0 (Answered (PayloadJson snapshot_agra)), Tick] \<and>
   \<not> isTracking (run [Tick, Settle 0 (Answered (PayloadJson snapshot_agra)), Tick]
       (step Submit (step Tick Home_tracking))) \<and>
   interval (run [Tick, Settle 0 (Answered (PayloadJson snapshot_agra)), Tick]
       (step Submit (step Tick Home_tracking))) = None"
proof -
  have h: "isTracking (step Tick Home_tracking)" "\<not> isLoading (step Tick Home_tracking)"
    "list_all (\<lambda>b. b) (in_flight (step Tick Home_tracking))"
    by (simp_all add: session_defs Home_tracking_def)
  have b: "list_all background [Tick, Settle 0 (Answered (PayloadJson snapshot_agra)), Tick]"
    by simp
  show ?thesis
    using stop_clears_the_timer [OF h b] h b by simp
qed


end
